theory Spec2Isabelle
  imports Complex_Main
begin

section \<open>JavaScript values the ticket routes compute with\<close>

text \<open>
  Strings are lists of code units (\<^typ>\<open>string\<close>); the routes only inspect characters of
  the Latin-1 range. The numbers the routes compute with come from \<open>parseInt\<close> and from
  \<open>(pageNum - 1) * limitNum\<close>: each is \<open>NaN\<close>, an infinity, or a double whose value is an
  integer (\<open>Finite\<close> of that integer).
\<close>

datatype number = NaN | Infinity | NegInfinity | Finite int

text \<open>
  The double nearest to an integer. A double holds 53 significant bits: an integer of
  more bits is rounded at its 53rd bit, to the nearest, a tie to the even one; the result
  is an infinity from \<open>2^1024\<close> on. Integers below \<open>2^53\<close> in magnitude are kept as they
  are.
\<close>

fun bit_length :: "nat \<Rightarrow> nat" where
  "bit_length n = (if n = 0 then 0 else Suc (bit_length (n div 2)))"

declare bit_length.simps [simp del]

definition round_to_53 :: "nat \<Rightarrow> nat" where
  "round_to_53 a =
     (let e = bit_length a - 53;
          q = a div 2 ^ e;
          r = a mod 2 ^ e
      in if 2 ^ e < 2 * r \<or> (2 * r = 2 ^ e \<and> odd q) then (q + 1) * 2 ^ e else q * 2 ^ e)"

definition number_of_int :: "int \<Rightarrow> number" where
  "number_of_int m =
     (let a = round_to_53 (nat \<bar>m\<bar>)
      in if 2 ^ 1024 \<le> a then (if m < 0 then NegInfinity else Infinity)
         else Finite (sgn m * int a))"

text \<open>\<open>parseInt\<close> first trims leading white space (tab, line feed, vertical tab, form
  feed, carriage return, space, no-break space).\<close>

definition is_white :: "char \<Rightarrow> bool" where
  "is_white c = (of_char c \<in> {9, 10, 11, 12, 13, 32, 160 :: nat})"

text \<open>The value of a character as a digit: \<open>0\<close> to \<open>9\<close>, then the letters \<open>a\<close> to \<open>z\<close>
  (either case) for the values from ten on; \<open>parseInt\<close> accepts a digit when its value is
  below the radix.\<close>

definition digit_value :: "char \<Rightarrow> nat option" where
  "digit_value c =
     (let n = of_char c :: nat in
      if 48 \<le> n \<and> n \<le> 57 then Some (n - 48)
      else if 97 \<le> n \<and> n \<le> 122 then Some (n - 87)
      else if 65 \<le> n \<and> n \<le> 90 then Some (n - 55)
      else None)"

definition is_radix_digit :: "nat \<Rightarrow> char \<Rightarrow> bool" where
  "is_radix_digit R c = (case digit_value c of Some d \<Rightarrow> d < R | None \<Rightarrow> False)"

definition digit_of :: "char \<Rightarrow> int" where
  "digit_of c = (case digit_value c of Some d \<Rightarrow> int d | None \<Rightarrow> 0)"

definition radix_value :: "nat \<Rightarrow> string \<Rightarrow> int" where
  "radix_value R Z = foldl (\<lambda>acc c. acc * int R + digit_of c) 0 Z"

text \<open>
  \<open>parseInt(string)\<close> with no radix argument, as the routes call it: trim leading white
  space, read an optional sign, switch to radix 16 when the rest starts with \<open>0x\<close> or
  \<open>0X\<close> (radix 10 otherwise), and take the longest run of digits of that radix;
  everything after the run is ignored. \<open>mathInt\<close> is the signed integer the run denotes
  (\<open>None\<close> when the run is empty); \<open>parseInt\<close> returns \<open>NaN\<close> for an empty run and the
  double nearest to \<open>mathInt\<close> otherwise. (The language lets an implementation
  approximate a decimal run after its 20th digit; the model rounds the exact integer, as
  the runtime of the server does.)
\<close>

definition mathInt :: "string \<Rightarrow> int option" where
  "mathInt inputString =
     (let S = dropWhile is_white inputString;
          sign = (if S \<noteq> [] \<and> hd S = CHR ''-'' then - 1 else 1 :: int);
          S1 = (if S \<noteq> [] \<and> (hd S = CHR ''+'' \<or> hd S = CHR ''-'') then tl S else S);
          hex = (take 2 S1 = ''0x'' \<or> take 2 S1 = ''0X'');
          R = (if hex then 16 else 10 :: nat);
          S2 = (if hex then drop 2 S1 else S1);
          Z = takeWhile (is_radix_digit R) S2
      in if Z = [] then None else Some (sign * radix_value R Z))"

definition parseInt :: "string \<Rightarrow> number" where
  "parseInt inputString =
     (case mathInt inputString of None \<Rightarrow> NaN | Some m \<Rightarrow> number_of_int m)"

text \<open>\<open>isNaN\<close> on the result of \<open>parseInt\<close>.\<close>

definition isNaN :: "number \<Rightarrow> bool" where
  "isNaN x = (x = NaN)"

text \<open>
  The arithmetic of \<open>(pageNum - 1) * limitNum\<close> on these numbers: the exact result,
  rounded to a double; \<open>NaN\<close> and the infinities propagate, and an infinity times zero is
  \<open>NaN\<close>.
\<close>

definition sign_of :: "number \<Rightarrow> int" where
  "sign_of x = (case x of NaN \<Rightarrow> 0 | Infinity \<Rightarrow> 1 | NegInfinity \<Rightarrow> - 1 | Finite n \<Rightarrow> sgn n)"

definition js_minus_1 :: "number \<Rightarrow> number" where
  "js_minus_1 x = (case x of Finite n \<Rightarrow> number_of_int (n - 1) | other \<Rightarrow> other)"

definition js_times :: "number \<Rightarrow> number \<Rightarrow> number" where
  "js_times x y =
     (if x = NaN \<or> y = NaN then NaN
      else case (x, y) of
             (Finite a, Finite b) \<Rightarrow> number_of_int (a * b)
           | _ \<Rightarrow> (if sign_of x * sign_of y = 0 then NaN
                   else if 0 < sign_of x * sign_of y then Infinity else NegInfinity))"

text \<open>\<open>Math.ceil(a / b)\<close> for integers \<open>a\<close> and a positive integer \<open>b\<close>.\<close>

definition ceil_div :: "int \<Rightarrow> int \<Rightarrow> int" where
  "ceil_div a b = - ((- a) div b)"

text \<open>
  A \<open>Date\<close> is its time value, the milliseconds since the epoch, or the Invalid Date
  (\<open>None\<close>). The runtime supplies what the routes take from their environment: the
  \<open>Date\<close> constructor on a string (\<open>newDate\<close>); the server's time zone, as the two
  conversions of the language, \<open>LocalTime\<close> from a time value to the local time value and
  \<open>UTC\<close> back (the zone's offset may change with the date); \<open>Date.prototype.toISOString\<close>;
  and the integers the identifier column of the table takes (\<open>idColumn\<close>: the schema that
  declares its width is not among the sources).
\<close>

type_synonym jsdate = "int option"

record runtime =
  newDate :: "string \<Rightarrow> jsdate"
  LocalTime :: "int \<Rightarrow> int"
  UTC :: "int \<Rightarrow> int"
  toISOString :: "int \<Rightarrow> string"
  idColumn :: "int \<Rightarrow> bool"

definition msPerDay :: int where
  "msPerDay = 86400000"

text \<open>\<open>TimeClip\<close>: a time value beyond 8.64e15 milliseconds is the Invalid Date.\<close>

definition TimeClip :: "int \<Rightarrow> jsdate" where
  "TimeClip t = (if \<bar>t\<bar> \<le> 8640000000000000 then Some t else None)"

text \<open>\<open>date.setHours(h, m, s, ms)\<close>: the day of the date's local time value, at the given
  clock time, converted back from local time. An Invalid Date stays invalid.\<close>

definition setHours :: "runtime \<Rightarrow> jsdate \<Rightarrow> int \<Rightarrow> int \<Rightarrow> int \<Rightarrow> int \<Rightarrow> jsdate" where
  "setHours env d h m sec ms =
     (case d of
        None \<Rightarrow> None
      | Some t \<Rightarrow>
          TimeClip (UTC env ((LocalTime env t div msPerDay) * msPerDay
                             + ((h * 60 + m) * 60 + sec) * 1000 + ms)))"

text \<open>A query or body value used as a condition (\<open>if (reason)\<close>): \<open>undefined\<close> and the
  empty string are falsy.\<close>

definition truthy :: "string option \<Rightarrow> string option" where
  "truthy v = (case v of None \<Rightarrow> None | Some s \<Rightarrow> if s = [] then None else Some s)"

text \<open>\<open>iso.split('T')[0]\<close>: the part before the first \<open>T\<close>.\<close>

definition split_T_0 :: "string \<Rightarrow> string" where
  "split_T_0 str = takeWhile (\<lambda>c. c \<noteq> CHR ''T'') str"

section \<open>The ticket table and the data access layer\<close>

record Ticket =
  t_id :: int
  t_tripId :: string
  t_tripDate :: int
  t_driverId :: int
  t_reason :: string
  t_city :: string
  t_serviceType :: string
  t_customerPhone :: string
  t_agentName :: string
  t_createdAt :: int

text \<open>
  Modelled from the spec: the schema of the Ticket table (the Prisma schema is not among
  the sources). The identifier is server-generated, unique and never reused; \<open>createdAt\<close>
  is server-generated at insert time. The table is the list of its rows in insertion
  order, with the next identifier of the sequence.
\<close>

record store =
  rows :: "Ticket list"
  nextId :: int

record CreateTicketBody =
  b_tripId :: string
  b_tripDate :: string
  b_driverId :: int
  b_reason :: string
  b_city :: string
  b_serviceType :: string
  b_customerPhone :: string
  b_agentName :: string

record GetTicketsQuery =
  q_reason :: "string option"
  q_start_date :: "string option"
  q_end_date :: "string option"
  q_page :: "string option"
  q_limit :: "string option"

text \<open>The \<open>where\<close> object of the list and export routes: an optional exact reason and an
  optional \<open>tripDate\<close> range \<open>{gte, lte}\<close>.\<close>

record where_clause =
  w_reason :: "string option"
  w_tripDate :: "(jsdate \<times> jsdate) option"

text \<open>\<open>prisma.ticket.create\<close>: the row gets the next identifier and the clock's time.\<close>

definition prisma_create :: "CreateTicketBody \<Rightarrow> int \<Rightarrow> int \<Rightarrow> store \<Rightarrow> Ticket \<times> store" where
  "prisma_create body tripDate now s =
     (let ticket = \<lparr>t_id = nextId s, t_tripId = b_tripId body, t_tripDate = tripDate,
                     t_driverId = b_driverId body, t_reason = b_reason body,
                     t_city = b_city body, t_serviceType = b_serviceType body,
                     t_customerPhone = b_customerPhone body, t_agentName = b_agentName body,
                     t_createdAt = now\<rparr>
      in (ticket, s\<lparr>rows := rows s @ [ticket], nextId := nextId s + 1\<rparr>))"

text \<open>A query with an Invalid Date in its \<open>where\<close> is rejected by the client.\<close>

definition where_valid :: "where_clause \<Rightarrow> bool" where
  "where_valid w =
     (case w_tripDate w of
        None \<Rightarrow> True
      | Some (lo, hi) \<Rightarrow> lo \<noteq> None \<and> hi \<noteq> None)"

definition matches :: "where_clause \<Rightarrow> Ticket \<Rightarrow> bool" where
  "matches w t =
     ((case w_reason w of None \<Rightarrow> True | Some r \<Rightarrow> t_reason t = r) \<and>
      (case w_tripDate w of
         None \<Rightarrow> True
       | Some (Some gte, Some lte) \<Rightarrow> gte \<le> t_tripDate t \<and> t_tripDate t \<le> lte
       | Some _ \<Rightarrow> False))"

definition prisma_count :: "where_clause \<Rightarrow> store \<Rightarrow> int" where
  "prisma_count w s = int (length (filter (matches w) (rows s)))"

text \<open>\<open>orderBy: { createdAt: 'desc' }\<close>. The order of rows with equal \<open>createdAt\<close> is the
  database's choice; the model keeps them in insertion order.\<close>

definition orderBy_createdAt_desc :: "Ticket list \<Rightarrow> Ticket list" where
  "orderBy_createdAt_desc ts = sort_key (\<lambda>t. - t_createdAt t) ts"

text \<open>
  Where the database client expects an integer (an identifier, \<open>skip\<close>, \<open>take\<close>) it takes
  a number that is a safe integer, one of magnitude at most \<open>2^53 - 1\<close>; it refuses \<open>NaN\<close>,
  the infinities and the numbers beyond the safe integers, which no longer are the
  integer that was written.
\<close>

definition safe_integer :: "int \<Rightarrow> bool" where
  "safe_integer n = (\<bar>n\<bar> \<le> 9007199254740991)"

definition prisma_int :: "number \<Rightarrow> int option" where
  "prisma_int x = (case x of Finite n \<Rightarrow> if safe_integer n then Some n else None | _ \<Rightarrow> None)"

text \<open>\<open>prisma.ticket.findMany\<close> without and with \<open>skip\<close> and \<open>take\<close>. The routes below
  reject a negative \<open>skip\<close> before the call; a negative \<open>take\<close> reads the list from its
  end.\<close>

definition prisma_findMany_all :: "where_clause \<Rightarrow> store \<Rightarrow> Ticket list" where
  "prisma_findMany_all w s = orderBy_createdAt_desc (filter (matches w) (rows s))"

definition prisma_findMany :: "where_clause \<Rightarrow> int \<Rightarrow> int \<Rightarrow> store \<Rightarrow> Ticket list" where
  "prisma_findMany w skip tk s =
     (if 0 \<le> tk then take (nat tk) (drop (nat skip) (prisma_findMany_all w s))
      else rev (take (nat (- tk)) (drop (nat skip) (rev (prisma_findMany_all w s)))))"

definition prisma_findUnique :: "int \<Rightarrow> store \<Rightarrow> Ticket option" where
  "prisma_findUnique n s = find (\<lambda>t. t_id t = n) (rows s)"

definition prisma_delete :: "int \<Rightarrow> store \<Rightarrow> store" where
  "prisma_delete n s = s\<lparr>rows := filter (\<lambda>t. t_id t \<noteq> n) (rows s)\<rparr>"

section \<open>Errors and responses\<close>

text \<open>
  The errors a route hands to \<open>next(error)\<close>: one made by \<open>createError(message, status)\<close>,
  the refusal of the validation middleware (400), or an error thrown by the database client.
\<close>

datatype error = AppError string int | ValidationFailed | PrismaRejected

text \<open>Modelled from the spec: \<open>createError\<close> of the error-handling middleware (not among
  the sources) makes the error that carries the message and the status code.\<close>

definition createError :: "string \<Rightarrow> int \<Rightarrow> error" where
  "createError message statusCode = AppError message statusCode"

datatype json = JNum int | JStr string

type_synonym json_object = "(string \<times> json) list"

record create_response =
  c_status :: int
  c_message :: string
  c_ticketId :: int

record list_response =
  r_page :: int
  r_totalPages :: int
  r_totalTickets :: int
  r_tickets :: "json_object list"

record csv_table =
  csv_header :: "string list"
  csv_rows :: "json option list list"

record export_response =
  x_contentType :: string
  x_contentDisposition :: string
  x_csv :: csv_table

record delete_response =
  d_status :: int
  d_message :: string

section \<open>The ticket routes\<close>

text \<open>The object both the list and the export route make of a row (the two \<open>map\<close>
  callbacks of the source are the same text).\<close>

definition ticket_object :: "runtime \<Rightarrow> Ticket \<Rightarrow> json_object" where
  "ticket_object env ticket =
     [(''id'', JNum (t_id ticket)),
      (''tripId'', JStr (t_tripId ticket)),
      (''tripDate'', JStr (split_T_0 (toISOString env (t_tripDate ticket)))),
      (''driverId'', JNum (t_driverId ticket)),
      (''reason'', JStr (t_reason ticket)),
      (''city'', JStr (t_city ticket)),
      (''serviceType'', JStr (t_serviceType ticket)),
      (''customerPhone'', JStr (t_customerPhone ticket)),
      (''agentName'', JStr (t_agentName ticket)),
      (''createdAt'', JStr (toISOString env (t_createdAt ticket)))]"

text \<open>
  The \<open>where\<close> clause, built the same way by the list route and by the export route
  (the export route repeats the text of the list route): the reason when it is given;
  with both dates, the two dates as they parse; with \<open>start_date\<close> only, from that date to
  23:59:59.999 of its local day; with \<open>end_date\<close> only, from 00:00:00.000 of its local day
  to that date.
\<close>

definition build_where :: "runtime \<Rightarrow> GetTicketsQuery \<Rightarrow> where_clause" where
  "build_where env q =
     \<lparr>w_reason = truthy (q_reason q),
      w_tripDate =
        (case (truthy (q_start_date q), truthy (q_end_date q)) of
           (Some start_date, Some end_date) \<Rightarrow>
             Some (newDate env start_date, newDate env end_date)
         | (Some start_date, None) \<Rightarrow>
             (let startDate = newDate env start_date;
                  endOfDay = setHours env startDate 23 59 59 999
              in Some (startDate, endOfDay))
         | (None, Some end_date) \<Rightarrow>
             (let endDate = newDate env end_date;
                  startOfDay = setHours env endDate 0 0 0 0
              in Some (startOfDay, endDate))
         | (None, None) \<Rightarrow> None)\<rparr>"

text \<open>\<open>POST /api/tickets\<close>, behind its validation middleware. The client rejects a row whose
  \<open>tripDate\<close> is the Invalid Date.\<close>

definition post_ticket ::
  "runtime \<Rightarrow> int \<Rightarrow> CreateTicketBody \<Rightarrow> store \<Rightarrow> (error + create_response) \<times> store" where
  "post_ticket env now body s =
     (case newDate env (b_tripDate body) of
        None \<Rightarrow> (Inl PrismaRejected, s)
      | Some tripDate \<Rightarrow>
          (let (ticket, s') = prisma_create body tripDate now s
           in (Inr \<lparr>c_status = 201, c_message = ''Ticket created successfully'',
                     c_ticketId = t_id ticket\<rparr>, s')))"

text \<open>
  \<open>GET /api/tickets\<close>, behind its validation middleware. \<open>page\<close> and \<open>limit\<close> default to the
  strings \<open>'1'\<close> and \<open>'20'\<close>. The database client refuses the query when its \<open>where\<close>
  holds an Invalid Date, when \<open>skip\<close> or \<open>take\<close> is not an integer it takes, or when \<open>skip\<close>
  is negative; the route hands the client's error on. The 404 test reads the page's rows,
  after \<open>totalPages\<close> is computed.
\<close>

definition get_tickets :: "runtime \<Rightarrow> GetTicketsQuery \<Rightarrow> store \<Rightarrow> error + list_response" where
  "get_tickets env q s =
     (let page = (case q_page q of None \<Rightarrow> ''1'' | Some p \<Rightarrow> p);
          limit = (case q_limit q of None \<Rightarrow> ''20'' | Some l \<Rightarrow> l);
          pageNum = parseInt page;
          limitNum = parseInt limit;
          skip = js_times (js_minus_1 pageNum) limitNum;
          wh = build_where env q
      in if where_valid wh then
           (case (pageNum, prisma_int skip, prisma_int limitNum) of
              (Finite pageNumber, Some skipped, Some taken) \<Rightarrow>
                (if 0 \<le> skipped then
                   (let totalTickets = prisma_count wh s;
                        tickets = prisma_findMany wh skipped taken s;
                        totalPages = ceil_div totalTickets taken
                    in if length tickets = 0
                       then Inl (createError ''No tickets found for given filters'' 404)
                       else Inr \<lparr>r_page = pageNumber, r_totalPages = totalPages,
                                 r_totalTickets = totalTickets,
                                 r_tickets = map (ticket_object env) tickets\<rparr>)
                 else Inl PrismaRejected)
            | _ \<Rightarrow> Inl PrismaRejected)
         else Inl PrismaRejected)"

text \<open>The column list of the export (\<open>fields\<close> in the source), and the \<open>json2csv\<close> parser with a \<open>fields\<close> option:
  the header is the field list; every object gives one row, the values of the fields in
  that order (an absent property gives an empty cell).\<close>

definition export_fields :: "string list" where
  "export_fields = [''id'', ''tripId'', ''tripDate'', ''driverId'', ''reason'', ''city'',
                    ''serviceType'', ''customerPhone'', ''agentName'', ''createdAt'']"

definition json2csv_parse :: "string list \<Rightarrow> json_object list \<Rightarrow> csv_table" where
  "json2csv_parse fs csvData =
     \<lparr>csv_header = fs, csv_rows = map (\<lambda>obj. map (map_of obj) fs) csvData\<rparr>"

text \<open>\<open>GET /api/tickets/export\<close>, behind its validation middleware: every matching row, no
  pagination.\<close>

definition get_tickets_export ::
  "runtime \<Rightarrow> GetTicketsQuery \<Rightarrow> store \<Rightarrow> error + export_response" where
  "get_tickets_export env q s =
     (let wh = build_where env q
      in if where_valid wh then
           (let tickets = prisma_findMany_all wh s
            in if length tickets = 0
               then Inl (createError ''No tickets found for given filters'' 404)
               else Inr \<lparr>x_contentType = ''text/csv'',
                         x_contentDisposition =
                           ''attachment; filename='' @ [CHR 0x22] @ ''tickets.csv'' @ [CHR 0x22],
                         x_csv = json2csv_parse export_fields (map (ticket_object env) tickets)\<rparr>)
         else Inl PrismaRejected)"

text \<open>\<open>DELETE /api/tickets/:id\<close>. There is no validation middleware on this route. The
  database client refuses an identifier that is not an integer it takes, or that the
  identifier column does not take; the route hands the client's error on.\<close>

definition delete_ticket ::
  "runtime \<Rightarrow> string \<Rightarrow> store \<Rightarrow> (error + delete_response) \<times> store" where
  "delete_ticket env id_param s =
     (let ticketId = parseInt id_param
      in if isNaN ticketId then (Inl (createError ''Invalid ticket ID'' 400), s)
         else case prisma_int ticketId of
                None \<Rightarrow> (Inl PrismaRejected, s)
              | Some n \<Rightarrow>
                  (if idColumn env n then
                     (case prisma_findUnique n s of
                        None \<Rightarrow> (Inl (createError ''Ticket not found'' 404), s)
                      | Some ticket \<Rightarrow>
                          (Inr \<lparr>d_status = 200, d_message = ''Ticket deleted successfully''\<rparr>,
                           prisma_delete n s))
                   else (Inl PrismaRejected, s)))"

section \<open>The validation layer\<close>

text \<open>
  Modelled from the spec: the list-query check of the validation layer (the validation
  middleware is not among the sources). If present, \<open>start_date\<close> and \<open>end_date\<close> are
  syntactically valid dates and \<open>page\<close> and \<open>limit\<close> are positive integers: a string of
  decimal digits whose value is at least one.
\<close>

definition is_positive_integer :: "string \<Rightarrow> bool" where
  "is_positive_integer str =
     (str \<noteq> [] \<and> list_all (is_radix_digit 10) str \<and> 1 \<le> radix_value 10 str)"

definition is_valid_date :: "runtime \<Rightarrow> string \<Rightarrow> bool" where
  "is_valid_date env str = (newDate env str \<noteq> None)"

definition optional :: "('a \<Rightarrow> bool) \<Rightarrow> 'a option \<Rightarrow> bool" where
  "optional check v = (case v of None \<Rightarrow> True | Some x \<Rightarrow> check x)"

definition validateGetTickets :: "runtime \<Rightarrow> GetTicketsQuery \<Rightarrow> bool" where
  "validateGetTickets env q =
     (optional (is_valid_date env) (q_start_date q) \<and>
      optional (is_valid_date env) (q_end_date q) \<and>
      optional is_positive_integer (q_page q) \<and>
      optional is_positive_integer (q_limit q))"

text \<open>The routes as mounted: the validation first (\<open>checkValidationErrors\<close> ends the request
  with a 400-class error), then the handler. The create check is a parameter: the spec
  does not enumerate what it accepts.\<close>

definition route_get_tickets :: "runtime \<Rightarrow> GetTicketsQuery \<Rightarrow> store \<Rightarrow> error + list_response" where
  "route_get_tickets env q s =
     (if validateGetTickets env q then get_tickets env q s else Inl ValidationFailed)"

definition route_get_tickets_export ::
  "runtime \<Rightarrow> GetTicketsQuery \<Rightarrow> store \<Rightarrow> error + export_response" where
  "route_get_tickets_export env q s =
     (if validateGetTickets env q then get_tickets_export env q s else Inl ValidationFailed)"

definition route_post_ticket ::
  "(CreateTicketBody \<Rightarrow> bool) \<Rightarrow> runtime \<Rightarrow> int \<Rightarrow> CreateTicketBody \<Rightarrow> store
     \<Rightarrow> (error + create_response) \<times> store" where
  "route_post_ticket validateCreateTicket env now body s =
     (if validateCreateTicket body then post_ticket env now body s
      else (Inl ValidationFailed, s))"

section \<open>Notions for the statements\<close>

text \<open>The numbers the list route reads from the query, with the defaults of the
  destructuring (\<open>pageNum\<close> and \<open>limitNum\<close> of the handler), when they are finite.\<close>

definition finite_value :: "number \<Rightarrow> int option" where
  "finite_value x = (case x of Finite n \<Rightarrow> Some n | _ \<Rightarrow> None)"

definition pageNum_of :: "GetTicketsQuery \<Rightarrow> int option" where
  "pageNum_of q = finite_value (parseInt (case q_page q of None \<Rightarrow> ''1'' | Some p \<Rightarrow> p))"

definition limitNum_of :: "GetTicketsQuery \<Rightarrow> int option" where
  "limitNum_of q = finite_value (parseInt (case q_limit q of None \<Rightarrow> ''20'' | Some l \<Rightarrow> l))"

text \<open>The \<open>skip\<close> and \<open>take\<close> the list route hands to the database client.\<close>

definition skip_of :: "GetTicketsQuery \<Rightarrow> number" where
  "skip_of q =
     js_times (js_minus_1 (parseInt (case q_page q of None \<Rightarrow> ''1'' | Some p \<Rightarrow> p)))
       (parseInt (case q_limit q of None \<Rightarrow> ''20'' | Some l \<Rightarrow> l))"

definition take_of :: "GetTicketsQuery \<Rightarrow> number" where
  "take_of q = parseInt (case q_limit q of None \<Rightarrow> ''20'' | Some l \<Rightarrow> l)"

text \<open>The identifiers present in the table, and the invariant of the identifier
  sequence: identifiers are unique, positive and below the next one.\<close>

definition ids :: "store \<Rightarrow> int set" where
  "ids s = t_id ` set (rows s)"

definition store_ok :: "store \<Rightarrow> bool" where
  "store_ok s =
     (distinct (map t_id (rows s)) \<and> 1 \<le> nextId s \<and> list_all (\<lambda>t. t_id t < nextId s) (rows s))"

text \<open>Requests that may follow one another on the store; listing and exporting do not
  change it.\<close>

datatype request = Create CreateTicketBody int | Delete string

fun handle :: "(CreateTicketBody \<Rightarrow> bool) \<Rightarrow> runtime \<Rightarrow> request \<Rightarrow> store \<Rightarrow> store" where
  "handle v env (Create body now) s = snd (route_post_ticket v env now body s)"
| "handle v env (Delete id_param) s = snd (delete_ticket env id_param s)"

fun handle_all :: "(CreateTicketBody \<Rightarrow> bool) \<Rightarrow> runtime \<Rightarrow> request list \<Rightarrow> store \<Rightarrow> store" where
  "handle_all v env [] s = s"
| "handle_all v env (r # rs) s = handle_all v env rs (handle v env r s)"

text \<open>The identifiers a list response shows.\<close>

definition shown_ids :: "list_response \<Rightarrow> json set" where
  "shown_ids r = set (List.map_filter (\<lambda>obj. map_of obj ''id'') (r_tickets r))"





text \<open>Whether a ticket passes the reason part of a query's filter.\<close>

definition reason_ok :: "GetTicketsQuery \<Rightarrow> Ticket \<Rightarrow> bool" where
  "reason_ok q t = (case truthy (q_reason q) of None \<Rightarrow> True | Some r \<Rightarrow> t_reason t = r)"

section \<open>The HTTP server\<close>

text \<open>
  A request is its method and path. A layer of the application answers, passes the
  request on (\<open>next()\<close>), fails (\<open>next(err)\<close>) or leaves the request without an answer.
  Paths are matched as they are written (the router's case folding and the optional
  trailing slash of a route are not modelled).
\<close>

datatype http_method = GET | HEAD | POST | DELETE

record http_request =
  rq_method :: http_method
  rq_path :: string

datatype http_response =
    Json int json_object
  | SendFile string
  | Redirect string
  | Other string

datatype outcome = Respond http_response | Next | Fail | NoAnswer

type_synonym layer = "http_request \<Rightarrow> outcome"

text \<open>What the server takes from its environment: the files and the directories that
  exist under the static directory, the answer of the mounted ticket router, whether the
  client is over the rate limit, and the clock.\<close>

record server_env =
  file_exists :: "string \<Rightarrow> bool"
  dir_exists :: "string \<Rightarrow> bool"
  ticketRoutes :: layer
  over_limit :: bool
  clock :: int
  isoString :: "int \<Rightarrow> string"

definition startsWith :: "string \<Rightarrow> string \<Rightarrow> bool" where
  "startsWith str pre = (take (length pre) str = pre)"

text \<open>\<open>helmet\<close>, \<open>cors\<close>, \<open>morgan\<close> and the body parsers set headers, log or parse, and
  pass the request on.\<close>

definition pass_on :: layer where
  "pass_on req = Next"

text \<open>A layer mounted on a path (\<open>app.use(path, ...)\<close>) sees the requests for that path
  and for the paths below it, the prefix ending at a segment boundary.\<close>

definition path_under :: "string \<Rightarrow> string \<Rightarrow> bool" where
  "path_under prefix path = (path = prefix \<or> startsWith path (prefix @ ''/''))"

definition mount :: "string \<Rightarrow> layer \<Rightarrow> layer" where
  "mount prefix l req = (if path_under prefix (rq_path req) then l req else Next)"

text \<open>The rate limiter is mounted on \<open>/api/\<close>.\<close>

definition rate_limit :: "server_env \<Rightarrow> layer" where
  "rate_limit E req =
     (if path_under ''/api'' (rq_path req) \<and> over_limit E
      then Respond (Other ''Too many requests from this IP, please try again later.'')
      else Next)"

text \<open>\<open>express.static(dir)\<close> answers a GET or HEAD whose path names an existing file
  under the directory; for a directory it redirects to the path with a trailing slash
  or, when the path has one, sends the directory's \<open>index.html\<close> if there is one. It
  passes every other request on.\<close>

definition ends_with_slash :: "string \<Rightarrow> bool" where
  "ends_with_slash path = (path \<noteq> [] \<and> last path = CHR ''/'')"

definition express_static :: "server_env \<Rightarrow> string \<Rightarrow> layer" where
  "express_static E dir req =
     (if rq_method req = GET \<or> rq_method req = HEAD then
        (if file_exists E (dir @ rq_path req) then Respond (SendFile (dir @ rq_path req))
         else if dir_exists E (dir @ rq_path req) then
           (if ends_with_slash (rq_path req) then
              (if file_exists E (dir @ rq_path req @ ''index.html'')
               then Respond (SendFile (dir @ rq_path req @ ''index.html''))
               else Next)
            else Respond (Redirect (rq_path req @ ''/'')))
         else Next)
      else Next)"

definition app_get :: "string \<Rightarrow> layer \<Rightarrow> layer" where
  "app_get path l req = (if rq_method req = GET \<and> rq_path req = path then l req else Next)"

definition app_get_star :: "layer \<Rightarrow> layer" where
  "app_get_star l req = (if rq_method req = GET then l req else Next)"

definition root_route :: layer where
  "root_route req = Respond (Json 200 [(''message'', JStr ''Backend API is running'')])"

definition health_payload :: "server_env \<Rightarrow> json_object" where
  "health_payload E = [(''status'', JStr ''OK''), (''timestamp'', JStr (isoString E (clock E)))]"

definition health_route :: "server_env \<Rightarrow> layer" where
  "health_route E req = Respond (Json 200 (health_payload E))"

text \<open>The catch-all of the second variant: outside \<open>/api\<close> it sends the entry document
  (\<open>sendFile\<close> fails when the file is missing); under \<open>/api\<close> it neither answers nor
  passes the request on.\<close>

definition spa_fallback :: "server_env \<Rightarrow> string \<Rightarrow> layer" where
  "spa_fallback E frontendPath req =
     (if startsWith (rq_path req) ''/api'' then NoAnswer
      else if file_exists E (frontendPath @ ''/index.html'')
           then Respond (SendFile (frontendPath @ ''/index.html''))
           else Fail)"

definition not_found_route :: layer where
  "not_found_route req = Respond (Json 404 [(''message'', JStr ''Route not found'')])"

text \<open>The layers are tried in the order of their registration; the first that does
  not pass the request on decides. The error-handling middleware is skipped by a request
  that no layer failed.\<close>

fun dispatch :: "layer list \<Rightarrow> http_request \<Rightarrow> outcome" where
  "dispatch [] req = Next"
| "dispatch (l # ls) req = (case l req of Next \<Rightarrow> dispatch ls req | out \<Rightarrow> out)"

text \<open>The first variant of the backend server.\<close>

definition server_first :: "server_env \<Rightarrow> layer" where
  "server_first E =
     dispatch
       [pass_on, pass_on, pass_on, pass_on, pass_on,
        rate_limit E,
        express_static E ''dist'',
        mount ''/api/tickets'' (ticketRoutes E),
        app_get ''/'' root_route,
        app_get ''/health'' (health_route E),
        not_found_route]"

text \<open>The second variant: the catch-all is registered before the health check.\<close>

definition server_second :: "server_env \<Rightarrow> layer" where
  "server_second E =
     dispatch
       [pass_on, pass_on, pass_on, pass_on, pass_on,
        rate_limit E,
        express_static E ''../frontend/dist'',
        mount ''/api/tickets'' (ticketRoutes E),
        app_get_star (spa_fallback E ''../frontend/dist''),
        app_get ''/health'' (health_route E),
        not_found_route]"

section \<open>Data for the examples\<close>

text \<open>A runtime in UTC that knows two date strings, 2024-01-01 (midnight UTC) and the same
  day at 10:00 UTC, with a 32-bit identifier column (its \<open>toISOString\<close> is a stand-in: no
  example depends on it); a ticket with given identifier, trip date and creation time;
  and a few queries and stores.\<close>

definition example_env :: runtime where
  "example_env =
     \<lparr>newDate = (\<lambda>str. if str = ''2024-01-01'' then Some 1704067200000
                        else if str = ''2024-01-01T10:00:00.000Z'' then Some 1704103200000
                        else None),
      LocalTime = (\<lambda>t. t),
      UTC = (\<lambda>t. t),
      toISOString = (\<lambda>t. ''1970-01-01T00:00:00.000Z''),
      idColumn = (\<lambda>n. - 2147483648 \<le> n \<and> n \<le> 2147483647)\<rparr>"

definition example_ticket :: "int \<Rightarrow> int \<Rightarrow> int \<Rightarrow> Ticket" where
  "example_ticket n trip created =
     \<lparr>t_id = n, t_tripId = ''T-1'', t_tripDate = trip, t_driverId = 7, t_reason = ''late'',
      t_city = ''Baghdad'', t_serviceType = ''car'', t_customerPhone = ''07700000000'',
      t_agentName = ''agent'', t_createdAt = created\<rparr>"

definition no_filter :: GetTicketsQuery where
  "no_filter = \<lparr>q_reason = None, q_start_date = None, q_end_date = None,
                 q_page = None, q_limit = None\<rparr>"

definition one_ticket_store :: store where
  "one_ticket_store = \<lparr>rows = [example_ticket 10 1704110400000 1704200000000], nextId = 11\<rparr>"

definition page_two :: GetTicketsQuery where
  "page_two = no_filter\<lparr>q_page := Some ''2''\<rparr>"

text \<open>A digit string whose integer no double holds: 310 nines.\<close>

definition many_nines :: string where
  "many_nines = replicate 310 (CHR ''9'')"

definition huge_page :: GetTicketsQuery where
  "huge_page = no_filter\<lparr>q_page := Some many_nines\<rparr>"

definition other_reason :: GetTicketsQuery where
  "other_reason = no_filter\<lparr>q_reason := Some ''other''\<rparr>"

definition fifteen_store :: store where
  "fifteen_store =
     \<lparr>rows = map (\<lambda>n. example_ticket n 1704110400000 (1704200000000 + n))
               [1, 2, 3, 4, 5, 6, 7, 8, 9, 10, 11, 12, 13, 14, 15],
      nextId = 16\<rparr>"

definition page_two_of_ten :: GetTicketsQuery where
  "page_two_of_ten = no_filter\<lparr>q_page := Some ''2'', q_limit := Some ''10''\<rparr>"

text \<open>
  A runtime in the zone of New York for dates of 2024: five hours behind universal time,
  four between 10 March 07:00 and 3 November 06:00 universal time (02:00 local time of
  those days).
\<close>

definition new_york_2024 :: runtime where
  "new_york_2024 =
     \<lparr>newDate = newDate example_env,
      LocalTime = (\<lambda>t. if 1710054000000 \<le> t \<and> t < 1730613600000
                        then t - 14400000 else t - 18000000),
      UTC = (\<lambda>t. if 1710036000000 \<le> t \<and> t < 1730599200000
                  then t + 14400000 else t + 18000000),
      toISOString = toISOString example_env,
      idColumn = idColumn example_env\<rparr>"

definition start_only :: GetTicketsQuery where
  "start_only = no_filter\<lparr>q_start_date := Some ''2024-01-01''\<rparr>"

definition end_only :: GetTicketsQuery where
  "end_only = no_filter\<lparr>q_end_date := Some ''2024-01-01''\<rparr>"

definition both_dates :: GetTicketsQuery where
  "both_dates = no_filter\<lparr>q_start_date := Some ''2024-01-01'', q_end_date := Some ''2024-01-01''\<rparr>"

definition late_start :: GetTicketsQuery where
  "late_start = no_filter\<lparr>q_start_date := Some ''2024-01-01T10:00:00.000Z''\<rparr>"

definition midnight_ticket :: Ticket where
  "midnight_ticket = example_ticket 12 1704067200000 1704200000002"

definition noon_ticket :: Ticket where
  "noon_ticket = example_ticket 10 1704110400000 1704200000000"

definition two_ticket_store :: store where
  "two_ticket_store =
     \<lparr>rows = [example_ticket 10 1704110400000 1704200000000,
              example_ticket 11 1704110400000 1704200000001],
      nextId = 12\<rparr>"

definition accept_all :: "CreateTicketBody \<Rightarrow> bool" where
  "accept_all body = True"


section \<open>Properties\<close>

subsection \<open>Doubles of integers\<close>

lemma bit_length_le: "n < 2 ^ k \<Longrightarrow> bit_length n \<le> k"
proof (induction k arbitrary: n)
  case 0
  then show ?case by (simp add: bit_length.simps)
next
  case (Suc k)
  show ?case
  proof (cases "n = 0")
    case True
    then show ?thesis by (simp add: bit_length.simps)
  next
    case False
    have "n div 2 < 2 ^ k" using Suc.prems by simp
    then have "bit_length (n div 2) \<le> k" by (rule Suc.IH)
    then show ?thesis using False by (subst bit_length.simps) simp
  qed
qed

lemma bit_length_upper: "n < 2 ^ bit_length n"
proof (induction n rule: bit_length.induct)
  case (1 n)
  show ?case
  proof (cases "n = 0")
    case True
    then show ?thesis by simp
  next
    case False
    have "n div 2 < 2 ^ bit_length (n div 2)" using "1.IH"[OF False] .
    then have "n < 2 * 2 ^ bit_length (n div 2)" by linarith
    then show ?thesis using False by (subst bit_length.simps) simp
  qed
qed

lemma bit_length_lower: "0 < n \<Longrightarrow> 2 ^ (bit_length n - 1) \<le> n"
proof (induction n rule: bit_length.induct)
  case (1 n)
  then have n: "n \<noteq> 0" by simp
  have b: "bit_length n = Suc (bit_length (n div 2))"
    using n by (subst bit_length.simps) simp
  show ?case
  proof (cases "n div 2 = 0")
    case True
    then have "bit_length (n div 2) = 0" by (simp add: bit_length.simps)
    then show ?thesis using "1.prems" by (simp add: b)
  next
    case False
    then have h: "2 ^ (bit_length (n div 2) - 1) \<le> n div 2"
      using "1.IH"[OF n] by simp
    have "bit_length (n div 2) \<noteq> 0"
      using False by (subst bit_length.simps) simp
    then have "(2::nat) ^ bit_length (n div 2) = 2 * 2 ^ (bit_length (n div 2) - 1)"
      by (cases "bit_length (n div 2)") simp_all
    then have "(2::nat) ^ bit_length (n div 2) \<le> 2 * (n div 2)" using h by simp
    also have "\<dots> \<le> n" by simp
    finally show ?thesis by (simp add: b)
  qed
qed

lemma round_to_53_exact: "a < 2 ^ 53 \<Longrightarrow> round_to_53 a = a"
proof -
  assume "a < 2 ^ 53"
  then have "bit_length a - 53 = 0" using bit_length_le[of a 53] by simp
  then show ?thesis by (simp add: round_to_53_def)
qed

lemma round_to_53_lower:
  assumes "0 < a"
  shows "2 ^ (bit_length a - 1) \<le> round_to_53 a"
proof (cases "bit_length a \<le> 53")
  case True
  then have "bit_length a - 53 = 0" by simp
  then have "round_to_53 a = a" by (simp add: round_to_53_def)
  then show ?thesis using bit_length_lower[OF assms] by simp
next
  case False
  define e where "e = bit_length a - 53"
  have be: "bit_length a - 1 = 52 + e" using False by (simp add: e_def)
  have "(2::nat) ^ (52 + e) \<le> a"
    using bit_length_lower[OF assms] unfolding be .
  then have "(2::nat) ^ 52 * 2 ^ e \<le> a" by (simp only: power_add)
  then have q: "2 ^ 52 \<le> a div 2 ^ e"
    by (simp add: less_eq_div_iff_mult_less_eq)
  have "a div 2 ^ e * 2 ^ e \<le> round_to_53 a"
    by (simp add: round_to_53_def e_def Let_def)
  moreover have "(2::nat) ^ 52 * 2 ^ e \<le> a div 2 ^ e * 2 ^ e"
    using q by simp
  ultimately have "(2::nat) ^ 52 * 2 ^ e \<le> round_to_53 a" by (rule order_trans[rotated])
  then show ?thesis unfolding be by (simp only: power_add)
qed

lemma round_to_53_ge:
  assumes "2 ^ k \<le> a"
  shows "2 ^ k \<le> round_to_53 a"
proof -
  have pos: "0 < a" using assms by (metis gr0I not_less power_eq_0_iff zero_neq_numeral le_zero_eq)
  have "(2::nat) ^ k < 2 ^ bit_length a"
    using assms bit_length_upper[of a] by linarith
  then have "k < bit_length a" by simp
  then have "(2::nat) ^ k \<le> 2 ^ (bit_length a - 1)"
    by (intro power_increasing) simp_all
  then show ?thesis using round_to_53_lower[OF pos] by linarith
qed

lemma number_of_int_exact:
  assumes "\<bar>m\<bar> < 2 ^ 53"
  shows "number_of_int m = Finite m"
proof -
  have a: "nat \<bar>m\<bar> < 2 ^ 53" using assms by (simp add: nat_less_iff)
  have r: "round_to_53 (nat \<bar>m\<bar>) = nat \<bar>m\<bar>" using a by (rule round_to_53_exact)
  have "\<not> (2 ^ 1024 \<le> nat \<bar>m\<bar>)" using a by simp
  moreover have "sgn m * int (nat \<bar>m\<bar>) = m" by (simp add: mult_sgn_abs)
  ultimately show ?thesis by (simp add: number_of_int_def r)
qed

lemma number_of_int_big:
  assumes "2 ^ 53 \<le> \<bar>m\<bar>" and "number_of_int m = Finite k"
  shows "2 ^ 53 \<le> \<bar>k\<bar>"
proof -
  have a: "2 ^ 53 \<le> nat \<bar>m\<bar>" using assms(1) by (simp add: le_nat_iff)
  have r: "2 ^ 53 \<le> round_to_53 (nat \<bar>m\<bar>)" using a by (rule round_to_53_ge)
  have m: "m \<noteq> 0" using assms(1) by auto
  have "k = sgn m * int (round_to_53 (nat \<bar>m\<bar>))"
    using assms(2) by (simp add: number_of_int_def Let_def split: if_splits)
  then have "\<bar>k\<bar> = int (round_to_53 (nat \<bar>m\<bar>))"
    using m by (simp add: abs_mult abs_sgn_eq)
  then show ?thesis using r by (simp add: le_nat_iff[symmetric])
qed

lemma number_of_int_infinite:
  assumes "2 ^ 1024 \<le> m"
  shows "number_of_int m = Infinity"
proof -
  have "2 ^ 1024 \<le> nat \<bar>m\<bar>" using assms by (simp add: le_nat_iff)
  then have "2 ^ 1024 \<le> round_to_53 (nat \<bar>m\<bar>)" by (rule round_to_53_ge)
  moreover have "\<not> m < 0" using assms by (smt (verit) zero_le_power)
  ultimately show ?thesis by (simp add: number_of_int_def)
qed

lemma number_of_int_positive:
  assumes "1 \<le> m" and "number_of_int m = Finite k"
  shows "1 \<le> k"
proof -
  have "2 ^ 0 \<le> nat \<bar>m\<bar>" using assms(1) by simp
  then have "2 ^ 0 \<le> round_to_53 (nat \<bar>m\<bar>)" by (rule round_to_53_ge)
  moreover have "k = sgn m * int (round_to_53 (nat \<bar>m\<bar>))"
    using assms(2) by (simp add: number_of_int_def Let_def split: if_splits)
  ultimately show ?thesis using assms(1) by simp
qed

lemma prisma_int_number:
  "prisma_int (number_of_int m) = Some k \<longleftrightarrow> k = m \<and> safe_integer m"
proof (cases "\<bar>m\<bar> < 2 ^ 53")
  case True
  then show ?thesis
    by (auto simp: number_of_int_exact prisma_int_def safe_integer_def)
next
  case False
  then have big: "2 ^ 53 \<le> \<bar>m\<bar>" by simp
  have "prisma_int (number_of_int m) = None"
  proof (cases "number_of_int m")
    case (Finite j)
    then have "2 ^ 53 \<le> \<bar>j\<bar>" using big number_of_int_big by blast
    then show ?thesis by (simp add: Finite prisma_int_def safe_integer_def)
  qed (simp_all add: prisma_int_def)
  moreover have "\<not> safe_integer m" using big by (simp add: safe_integer_def)
  ultimately show ?thesis by simp
qed

lemma prisma_int_Finite: "prisma_int x = Some k \<Longrightarrow> x = Finite k \<and> safe_integer k"
  by (cases x) (auto simp: prisma_int_def split: if_splits)

lemma number_of_int_not_NaN: "number_of_int m \<noteq> NaN"
  by (simp add: number_of_int_def Let_def)

lemma number_of_int_safe: "safe_integer m \<Longrightarrow> number_of_int m = Finite m"
  by (rule number_of_int_exact) (simp add: safe_integer_def)

lemma skip_accepted:
  assumes "1 \<le> l"
  shows "prisma_int (js_times (js_minus_1 (Finite p)) (Finite l)) = Some sk
           \<longleftrightarrow> sk = (p - 1) * l \<and> safe_integer ((p - 1) * l)"
proof (cases "\<bar>p - 1\<bar> < 2 ^ 53")
  case True
  then have "js_minus_1 (Finite p) = Finite (p - 1)"
    by (simp add: js_minus_1_def number_of_int_exact)
  then show ?thesis by (simp add: js_times_def prisma_int_number)
next
  case False
  then have big: "2 ^ 53 \<le> \<bar>p - 1\<bar>" by simp
  have "\<bar>p - 1\<bar> * 1 \<le> \<bar>p - 1\<bar> * \<bar>l\<bar>"
    using assms by (intro mult_left_mono) simp_all
  then have "2 ^ 53 \<le> \<bar>(p - 1) * l\<bar>" using big by (simp add: abs_mult)
  then have unsafe: "\<not> safe_integer ((p - 1) * l)" by (simp add: safe_integer_def)
  have "prisma_int (js_times (js_minus_1 (Finite p)) (Finite l)) = None"
  proof (cases "number_of_int (p - 1)")
    case NaN
    then show ?thesis using number_of_int_not_NaN by blast
  next
    case Infinity
    then show ?thesis using assms
      by (simp add: js_minus_1_def js_times_def sign_of_def prisma_int_def)
  next
    case NegInfinity
    then show ?thesis using assms
      by (simp add: js_minus_1_def js_times_def sign_of_def prisma_int_def)
  next
    case (Finite k)
    then have k: "2 ^ 53 \<le> \<bar>k\<bar>" using big number_of_int_big by blast
    have "\<bar>k\<bar> * 1 \<le> \<bar>k\<bar> * \<bar>l\<bar>"
      using assms by (intro mult_left_mono) simp_all
    then have "2 ^ 53 \<le> \<bar>k * l\<bar>" using k by (simp add: abs_mult)
    then have "\<not> safe_integer (k * l)" by (simp add: safe_integer_def)
    then have "prisma_int (number_of_int (k * l)) = None"
      using prisma_int_number[of "k * l"] by (cases "prisma_int (number_of_int (k * l))") auto
    then show ?thesis by (simp add: js_minus_1_def Finite js_times_def)
  qed
  then show ?thesis using unsafe by simp
qed

subsection \<open>Parsing\<close>

lemmas eval_mathInt = mathInt_def is_white_def is_radix_digit_def digit_value_def
  radix_value_def digit_of_def

lemma parseInt_of_mathInt:
  "mathInt str = None \<Longrightarrow> parseInt str = NaN"
  "mathInt str = Some m \<Longrightarrow> \<bar>m\<bar> < 2 ^ 53 \<Longrightarrow> parseInt str = Finite m"
  "mathInt str = Some m \<Longrightarrow> 2 ^ 1024 \<le> m \<Longrightarrow> parseInt str = Infinity"
  by (simp_all add: parseInt_def number_of_int_exact number_of_int_infinite)

lemma parseInt_NaN_iff: "parseInt str = NaN \<longleftrightarrow> mathInt str = None"
  by (simp add: parseInt_def number_of_int_not_NaN split: option.splits)

lemma mathInt_examples:
  "mathInt ''12abc'' = Some 12" "mathInt ''7.9'' = Some 7" "mathInt ''abc'' = None"
  "mathInt ''0xA'' = Some 10" "mathInt '' -42'' = Some (- 42)" "mathInt ''0x'' = None"
  "mathInt ''20'' = Some 20" "mathInt ''1'' = Some 1" "mathInt [] = None"
  "mathInt ''2'' = Some 2" "mathInt ''10'' = Some 10" "mathInt ''7'' = Some 7"
  "mathInt ''99999999999'' = Some 99999999999"
  by (simp_all add: eval_mathInt)

lemma parseInt_examples:
  "parseInt ''12abc'' = Finite 12" "parseInt ''7.9'' = Finite 7" "parseInt ''abc'' = NaN"
  "parseInt ''0xA'' = Finite 10" "parseInt '' -42'' = Finite (- 42)" "parseInt ''0x'' = NaN"
  "parseInt ''20'' = Finite 20" "parseInt ''1'' = Finite 1" "parseInt [] = NaN"
  "parseInt ''2'' = Finite 2" "parseInt ''10'' = Finite 10" "parseInt ''7'' = Finite 7"
  "parseInt ''99999999999'' = Finite 99999999999"
  by (simp_all add: parseInt_def mathInt_examples number_of_int_exact)

lemma bit_length_eq:
  assumes "2 ^ k \<le> n" and "n < 2 ^ Suc k"
  shows "bit_length n = Suc k"
proof -
  have "bit_length n \<le> Suc k" using assms(2) by (rule bit_length_le)
  moreover have "(2::nat) ^ k < 2 ^ bit_length n"
    using assms(1) bit_length_upper[of n] by linarith
  then have "k < bit_length n" by simp
  ultimately show ?thesis by simp
qed

lemma parseInt_rounds: "parseInt ''9007199254740993'' = Finite 9007199254740992"
proof -
  have m: "mathInt ''9007199254740993'' = Some 9007199254740993" by (simp add: eval_mathInt)
  have "bit_length 9007199254740993 = Suc 53"
    by (rule bit_length_eq) simp_all
  then have "round_to_53 9007199254740993 = 9007199254740992"
    by (simp add: round_to_53_def)
  then show ?thesis by (simp add: parseInt_def m number_of_int_def)
qed

lemma digit10_not_white: "is_radix_digit 10 c \<Longrightarrow> \<not> is_white c"
  by (auto simp: is_radix_digit_def digit_value_def is_white_def Let_def split: if_splits)

lemma digit10_range: "is_radix_digit 10 c \<longleftrightarrow> 48 \<le> (of_char c :: nat) \<and> (of_char c :: nat) \<le> 57"
  by (auto simp: is_radix_digit_def digit_value_def Let_def split: if_splits)

lemma digit10_not_sign: "is_radix_digit 10 c \<Longrightarrow> c \<noteq> CHR ''+'' \<and> c \<noteq> CHR ''-'' \<and> c \<noteq> CHR ''x'' \<and> c \<noteq> CHR ''X''"
  by (auto simp: digit10_range)

lemma mathInt_digits:
  assumes "str \<noteq> []" "list_all (is_radix_digit 10) str"
  shows "mathInt str = Some (radix_value 10 str)"
proof -
  obtain c cs where str: "str = c # cs" using assms(1) by (cases str) auto
  have c: "is_radix_digit 10 c" and cs: "list_all (is_radix_digit 10) cs"
    using assms(2) by (simp_all add: str)
  have nohex: "take 2 str \<noteq> ''0x''" "take 2 str \<noteq> ''0X''"
  proof -
    show "take 2 str \<noteq> ''0x''"
    proof (cases cs)
      case Nil then show ?thesis by (simp add: str)
    next
      case (Cons d ds)
      then have "is_radix_digit 10 d" using cs by simp
      then show ?thesis using digit10_not_sign[of d] by (auto simp: str Cons)
    qed
    show "take 2 str \<noteq> ''0X''"
    proof (cases cs)
      case Nil then show ?thesis by (simp add: str)
    next
      case (Cons d ds)
      then have "is_radix_digit 10 d" using cs by simp
      then show ?thesis using digit10_not_sign[of d] by (auto simp: str Cons)
    qed
  qed
  have tw: "takeWhile (is_radix_digit 10) str = str"
    using assms(2) by (simp add: list_all_iff takeWhile_eq_all_conv)
  have dw: "dropWhile is_white str = str"
    using digit10_not_white[OF c] by (simp add: str)
  have hd: "hd str \<noteq> CHR ''+''" "hd str \<noteq> CHR ''-''"
    using digit10_not_sign[OF c] by (simp_all add: str)
  show ?thesis
    using assms(1) by (simp add: mathInt_def Let_def dw hd nohex tw)
qed

lemma mathInt_no_leading:
  assumes "str = [] \<or> \<not> (is_white (hd str) \<or> hd str = CHR ''+'' \<or> hd str = CHR ''-''
             \<or> is_radix_digit 10 (hd str))"
  shows "mathInt str = None"
proof (cases str)
  case Nil
  then show ?thesis by (simp add: mathInt_def)
next
  case (Cons c cs)
  then have c: "\<not> is_white c" "c \<noteq> CHR ''+''" "c \<noteq> CHR ''-''" "\<not> is_radix_digit 10 c"
    using assms by auto
  have "c \<noteq> CHR ''0''" using c(4) by (auto simp: is_radix_digit_def digit_value_def)
  then show ?thesis using c by (simp add: mathInt_def Cons Let_def)
qed

lemma mathInt_plain:
  assumes "dropWhile is_white str = str" "hd str \<noteq> CHR ''+''" "hd str \<noteq> CHR ''-''"
    "take 2 str \<noteq> ''0x''" "take 2 str \<noteq> ''0X''"
  shows "mathInt str =
     (if takeWhile (is_radix_digit 10) str = [] then None
      else Some (radix_value 10 (takeWhile (is_radix_digit 10) str)))"
  using assms by (simp add: mathInt_def Let_def)

lemma mathInt_leading_digits:
  assumes "ds \<noteq> []" "list_all (is_radix_digit 10) ds"
    "rest = [] \<or> \<not> is_radix_digit 10 (hd rest)"
    "take 2 (ds @ rest) \<noteq> ''0x''" "take 2 (ds @ rest) \<noteq> ''0X''"
  shows "mathInt (ds @ rest) = Some (radix_value 10 ds)"
proof -
  obtain c cs where ds: "ds = c # cs" using assms(1) by (cases ds) auto
  have c: "is_radix_digit 10 c" using assms(2) by (simp add: ds)
  have "takeWhile (is_radix_digit 10) rest = []"
    using assms(3) by (cases rest) auto
  then have tw: "takeWhile (is_radix_digit 10) (ds @ rest) = ds"
    using assms(2) by (simp add: list_all_iff takeWhile_append2)
  have dw: "dropWhile is_white (ds @ rest) = ds @ rest"
    using digit10_not_white[OF c] by (simp add: ds)
  have hd: "hd (ds @ rest) \<noteq> CHR ''+''" "hd (ds @ rest) \<noteq> CHR ''-''"
    using digit10_not_sign[OF c] by (simp_all add: ds)
  have "mathInt (ds @ rest) =
     (if takeWhile (is_radix_digit 10) (ds @ rest) = [] then None
      else Some (radix_value 10 (takeWhile (is_radix_digit 10) (ds @ rest))))"
    by (rule mathInt_plain) (fact dw hd assms(4) assms(5))+
  then show ?thesis using assms(1) by (simp only: tw if_False)
qed

lemma mathInt_hex_prefix:
  assumes "take 2 str = ''0x'' \<or> take 2 str = ''0X''"
  shows "mathInt str =
     (if takeWhile (is_radix_digit 16) (drop 2 str) = [] then None
      else Some (radix_value 16 (takeWhile (is_radix_digit 16) (drop 2 str))))"
proof -
  obtain cs where str: "str = CHR ''0'' # cs" using assms by (cases str) auto
  have dw: "dropWhile is_white str = str" by (simp add: str is_white_def)
  have hd: "hd str \<noteq> CHR ''+''" "hd str \<noteq> CHR ''-''" by (simp_all add: str)
  have ne: "str \<noteq> []" by (simp add: str)
  show ?thesis using assms ne by (simp add: mathInt_def Let_def dw hd)
qed





lemma radix_value_snoc: "radix_value R (Z @ [c]) = radix_value R Z * int R + digit_of c"
  by (simp add: radix_value_def)




lemma truthy_Some: "truthy v = Some x \<Longrightarrow> v = Some x"
  by (auto simp: truthy_def split: option.splits if_splits)

lemma findMany_all_length:
  "int (length (prisma_findMany_all w s)) = prisma_count w s"
  by (simp add: prisma_findMany_all_def prisma_count_def orderBy_createdAt_desc_def)

lemma findMany_all_set:
  "set (prisma_findMany_all w s) = {t \<in> set (rows s). matches w t}"
  by (auto simp: prisma_findMany_all_def orderBy_createdAt_desc_def)

lemma ceil_div_real: "0 < b \<Longrightarrow> ceil_div a b = \<lceil>real_of_int a / real_of_int b\<rceil>"
proof -
  have "(- a) div b = \<lfloor>real_of_int (- a) / real_of_int b\<rfloor>"
    by (rule floor_divide_of_int_eq[symmetric])
  then show ?thesis by (simp add: ceil_div_def ceiling_def)
qed

lemma ceil_div_less_iff:
  assumes "1 \<le> l"
  shows "ceil_div n l < p \<longleftrightarrow> n \<le> (p - 1) * l"
proof -
  have "ceil_div n l < p \<longleftrightarrow> real_of_int n / real_of_int l \<le> real_of_int p - 1"
    using assms by (simp add: ceil_div_real ceiling_less_iff)
  also have "\<dots> \<longleftrightarrow> real_of_int n \<le> (real_of_int p - 1) * real_of_int l"
    using assms by (simp add: pos_divide_le_eq)
  also have "\<dots> \<longleftrightarrow> real_of_int n \<le> real_of_int ((p - 1) * l)"
    by simp
  also have "\<dots> \<longleftrightarrow> n \<le> (p - 1) * l"
    by (rule of_int_le_iff)
  finally show ?thesis .
qed

lemma findMany_all_empty_iff: "prisma_findMany_all w s = [] \<longleftrightarrow> prisma_count w s = 0"
  using findMany_all_length[of w s] by auto

lemma orderBy_sorted_desc:
  "sorted_wrt (\<lambda>a b. t_createdAt b \<le> t_createdAt a) (orderBy_createdAt_desc ts)"
proof -
  have "sorted (map (\<lambda>t. - t_createdAt t) (orderBy_createdAt_desc ts))"
    unfolding orderBy_createdAt_desc_def by (rule sorted_sort_key)
  then show ?thesis by (simp add: sorted_map)
qed

lemma orderBy_same_rows:
  "set (orderBy_createdAt_desc ts) = set ts" "length (orderBy_createdAt_desc ts) = length ts"
  by (simp_all add: orderBy_createdAt_desc_def)

lemma csv_row_of_ticket:
  "map (map_of (ticket_object env t)) export_fields =
     [Some (JNum (t_id t)), Some (JStr (t_tripId t)),
      Some (JStr (split_T_0 (toISOString env (t_tripDate t)))), Some (JNum (t_driverId t)),
      Some (JStr (t_reason t)), Some (JStr (t_city t)), Some (JStr (t_serviceType t)),
      Some (JStr (t_customerPhone t)), Some (JStr (t_agentName t)),
      Some (JStr (toISOString env (t_createdAt t)))]"
  by (simp add: ticket_object_def export_fields_def)

lemma build_where_same_filter:
  assumes "q_reason q' = q_reason q" "q_start_date q' = q_start_date q"
    "q_end_date q' = q_end_date q"
  shows "build_where env q' = build_where env q"
  using assms by (simp add: build_where_def)


lemma radix_value_nines: "radix_value 10 (replicate n (CHR ''9'')) = 10 ^ n - 1"
proof (induction n)
  case 0
  then show ?case by (simp add: radix_value_def)
next
  case (Suc n)
  have "replicate (Suc n) (CHR ''9'') = replicate n (CHR ''9'') @ [CHR ''9'']"
    by (simp add: replicate_append_same)
  then have "radix_value 10 (replicate (Suc n) (CHR ''9''))
      = radix_value 10 (replicate n (CHR ''9'')) * 10 + 9"
    by (simp only: radix_value_snoc) (simp add: digit_of_def digit_value_def)
  then show ?case using Suc.IH by simp
qed

lemma nines_digits: "list_all (is_radix_digit 10) (replicate n (CHR ''9''))"
  by (simp add: list_all_iff is_radix_digit_def digit_value_def)

lemma parseInt_many_nines:
  "mathInt (replicate 310 (CHR ''9'')) = Some (10 ^ 310 - 1)"
  "parseInt (replicate 310 (CHR ''9'')) = Infinity"
proof -
  show m: "mathInt (replicate 310 (CHR ''9'')) = Some (10 ^ 310 - 1)"
    using mathInt_digits[OF _ nines_digits, of 310] by (simp add: radix_value_nines)
  have "(2::int) ^ 1024 \<le> 10 ^ 310 - 1" by simp
  then show "parseInt (replicate 310 (CHR ''9'')) = Infinity"
    using m by (rule parseInt_of_mathInt(3)[rotated])
qed

subsection \<open>What the validation layer guarantees\<close>

lemma default_numbers: "parseInt ''1'' = Finite 1" "parseInt ''20'' = Finite 20"
  by (simp_all add: parseInt_examples)

lemma positive_integer_mathInt:
  "is_positive_integer str \<Longrightarrow> \<exists>m. mathInt str = Some m \<and> 1 \<le> m"
  by (simp add: is_positive_integer_def mathInt_digits)

lemma positive_integer_parse:
  assumes "is_positive_integer str" and "parseInt str = Finite n"
  shows "1 \<le> n"
proof -
  obtain m where m: "mathInt str = Some m" "1 \<le> m"
    using positive_integer_mathInt[OF assms(1)] by blast
  then have "number_of_int m = Finite n" using assms(2) by (simp add: parseInt_def)
  then show ?thesis using m(2) number_of_int_positive by blast
qed

lemma validated_numbers:
  assumes "validateGetTickets env q"
  shows "pageNum_of q = Some p \<Longrightarrow> 1 \<le> p" "limitNum_of q = Some l \<Longrightarrow> 1 \<le> l"
proof -
  assume p: "pageNum_of q = Some p"
  show "1 \<le> p"
  proof (cases "q_page q")
    case None
    then show ?thesis using p by (simp add: pageNum_of_def finite_value_def default_numbers)
  next
    case (Some str)
    then have "is_positive_integer str"
      using assms by (simp add: validateGetTickets_def optional_def)
    moreover have "parseInt str = Finite p"
      using p Some by (cases "parseInt str") (simp_all add: pageNum_of_def finite_value_def)
    ultimately show ?thesis by (rule positive_integer_parse)
  qed
next
  assume l: "limitNum_of q = Some l"
  show "1 \<le> l"
  proof (cases "q_limit q")
    case None
    then show ?thesis using l by (simp add: limitNum_of_def finite_value_def default_numbers)
  next
    case (Some str)
    then have "is_positive_integer str"
      using assms by (simp add: validateGetTickets_def optional_def)
    moreover have "parseInt str = Finite l"
      using l Some by (cases "parseInt str") (simp_all add: limitNum_of_def finite_value_def)
    ultimately show ?thesis by (rule positive_integer_parse)
  qed
qed

lemma finite_value_Some: "finite_value x = Some n \<longleftrightarrow> x = Finite n"
  by (cases x) (simp_all add: finite_value_def)

subsection \<open>The list and export routes, unfolded\<close>

lemma get_tickets_accepted:
  assumes "where_valid (build_where env q)" and "pageNum_of q = Some p"
    and "limitNum_of q = Some l" and "1 \<le> p" and "1 \<le> l"
    and "safe_integer ((p - 1) * l)" and "safe_integer l"
  shows "get_tickets env q s =
     (if prisma_findMany (build_where env q) ((p - 1) * l) l s = []
      then Inl (createError ''No tickets found for given filters'' 404)
      else Inr \<lparr>r_page = p, r_totalPages = ceil_div (prisma_count (build_where env q) s) l,
                r_totalTickets = prisma_count (build_where env q) s,
                r_tickets = map (ticket_object env)
                  (prisma_findMany (build_where env q) ((p - 1) * l) l s)\<rparr>)"
proof -
  have pn: "parseInt (case q_page q of None \<Rightarrow> ''1'' | Some p \<Rightarrow> p) = Finite p"
    using assms(2) by (simp add: pageNum_of_def finite_value_Some)
  have ln: "parseInt (case q_limit q of None \<Rightarrow> ''20'' | Some l \<Rightarrow> l) = Finite l"
    using assms(3) by (simp add: limitNum_of_def finite_value_Some)
  have sk: "prisma_int (js_times (js_minus_1 (Finite p)) (Finite l)) = Some ((p - 1) * l)"
    using assms(6) by (simp add: skip_accepted[OF assms(5)])
  have tk: "prisma_int (Finite l) = Some l"
    using assms(7) by (simp add: prisma_int_def)
  have nn: "0 \<le> (p - 1) * l" using assms(4,5) by simp
  show ?thesis
    using assms(1) nn by (simp add: get_tickets_def pn ln sk tk Let_def)
qed

lemma get_tickets_Inr:
  assumes "validateGetTickets env q" and "get_tickets env q s = Inr r"
  shows "\<exists>p l. pageNum_of q = Some p \<and> limitNum_of q = Some l \<and> 1 \<le> p \<and> 1 \<le> l \<and>
           safe_integer ((p - 1) * l) \<and> safe_integer l \<and> where_valid (build_where env q)"
proof -
  let ?pn = "parseInt (case q_page q of None \<Rightarrow> ''1'' | Some p \<Rightarrow> p)"
  let ?ln = "parseInt (case q_limit q of None \<Rightarrow> ''20'' | Some l \<Rightarrow> l)"
  have wv: "where_valid (build_where env q)"
    using assms(2) by (auto simp: get_tickets_def Let_def split: if_splits)
  obtain p sk tk where c: "?pn = Finite p" "prisma_int (js_times (js_minus_1 ?pn) ?ln) = Some sk"
      "prisma_int ?ln = Some tk"
    using assms(2) wv
    by (auto simp: get_tickets_def Let_def split: number.splits option.splits if_splits)
  have ln: "?ln = Finite tk" and stk: "safe_integer tk"
    using prisma_int_Finite[OF c(3)] by simp_all
  have p: "pageNum_of q = Some p" using c(1) by (simp add: pageNum_of_def finite_value_Some)
  have l: "limitNum_of q = Some tk" using ln by (simp add: limitNum_of_def finite_value_Some)
  have p1: "1 \<le> p" and l1: "1 \<le> tk"
    using validated_numbers[OF assms(1)] p l by blast+
  have "safe_integer ((p - 1) * tk)"
    using c(2) by (simp add: c(1) ln skip_accepted[OF l1])
  then show ?thesis using p l p1 l1 stk wv by blast
qed

lemma route_list_accepted:
  assumes "validateGetTickets env q" and "where_valid (build_where env q)"
    and "pageNum_of q = Some p" and "limitNum_of q = Some l"
    and "safe_integer ((p - 1) * l)" and "safe_integer l"
  shows "route_get_tickets env q s =
     (if prisma_findMany (build_where env q) ((p - 1) * l) l s = []
      then Inl (createError ''No tickets found for given filters'' 404)
      else Inr \<lparr>r_page = p, r_totalPages = ceil_div (prisma_count (build_where env q) s) l,
                r_totalTickets = prisma_count (build_where env q) s,
                r_tickets = map (ticket_object env)
                  (prisma_findMany (build_where env q) ((p - 1) * l) l s)\<rparr>)"
  using assms(1)
  by (simp add: route_get_tickets_def
      get_tickets_accepted[OF assms(2,3,4) validated_numbers(1)[OF assms(1,3)]
        validated_numbers(2)[OF assms(1,4)] assms(5,6)])

lemma route_list_Inr:
  assumes "route_get_tickets env q s = Inr r"
  shows "\<exists>p l. validateGetTickets env q \<and> pageNum_of q = Some p \<and> limitNum_of q = Some l \<and>
           1 \<le> p \<and> 1 \<le> l \<and> safe_integer ((p - 1) * l) \<and> safe_integer l \<and>
           where_valid (build_where env q) \<and>
           prisma_findMany (build_where env q) ((p - 1) * l) l s \<noteq> [] \<and>
           r = \<lparr>r_page = p, r_totalPages = ceil_div (prisma_count (build_where env q) s) l,
                 r_totalTickets = prisma_count (build_where env q) s,
                 r_tickets = map (ticket_object env)
                   (prisma_findMany (build_where env q) ((p - 1) * l) l s)\<rparr>"
proof -
  have v: "validateGetTickets env q"
    using assms by (auto simp: route_get_tickets_def split: if_splits)
  then have g: "get_tickets env q s = Inr r" using assms by (simp add: route_get_tickets_def)
  obtain p l where pl: "pageNum_of q = Some p" "limitNum_of q = Some l" "1 \<le> p" "1 \<le> l"
      "safe_integer ((p - 1) * l)" "safe_integer l" "where_valid (build_where env q)"
    using get_tickets_Inr[OF v g] by blast
  note eq = get_tickets_accepted[OF pl(7,1,2,3,4,5,6), of s]
  have "prisma_findMany (build_where env q) ((p - 1) * l) l s \<noteq> []"
    using g eq by (auto split: if_splits)
  moreover from this have "r = \<lparr>r_page = p,
                 r_totalPages = ceil_div (prisma_count (build_where env q) s) l,
                 r_totalTickets = prisma_count (build_where env q) s,
                 r_tickets = map (ticket_object env)
                   (prisma_findMany (build_where env q) ((p - 1) * l) l s)\<rparr>"
    using g eq by simp
  ultimately show ?thesis using v pl by blast
qed

lemma findMany_window:
  "0 \<le> l \<Longrightarrow> prisma_findMany w skip l s = take (nat l) (drop (nat skip) (prisma_findMany_all w s))"
  by (simp add: prisma_findMany_def)

lemma findMany_empty_iff:
  assumes "0 \<le> skip" "1 \<le> l"
  shows "prisma_findMany w skip l s = [] \<longleftrightarrow> prisma_count w s \<le> skip"
proof -
  have "prisma_findMany w skip l s = [] \<longleftrightarrow> drop (nat skip) (prisma_findMany_all w s) = []"
    using assms(2) by (simp add: prisma_findMany_def)
  also have "\<dots> \<longleftrightarrow> length (prisma_findMany_all w s) \<le> nat skip" by simp
  also have "\<dots> \<longleftrightarrow> prisma_count w s \<le> skip"
    using assms(1) findMany_all_length[of w s] by linarith
  finally show ?thesis .
qed

lemma findMany_empty_if_none: "prisma_count w s = 0 \<Longrightarrow> prisma_findMany w skip l s = []"
  by (simp add: prisma_findMany_def findMany_all_empty_iff[symmetric])

lemma export_eq:
  assumes "where_valid (build_where env q)"
  shows "get_tickets_export env q s =
     (if prisma_findMany_all (build_where env q) s = []
      then Inl (createError ''No tickets found for given filters'' 404)
      else Inr \<lparr>x_contentType = ''text/csv'',
                x_contentDisposition = ''attachment; filename='' @ [CHR 0x22] @ ''tickets.csv'' @ [CHR 0x22],
                x_csv = json2csv_parse export_fields
                  (map (ticket_object env) (prisma_findMany_all (build_where env q) s))\<rparr>)"
  using assms by (simp add: get_tickets_export_def Let_def)

lemma matches_where_valid: "matches w t \<Longrightarrow> where_valid w"
  by (auto simp: matches_def where_valid_def split: option.splits)

lemma count_where_valid: "1 \<le> prisma_count w s \<Longrightarrow> where_valid w"
proof -
  assume "1 \<le> prisma_count w s"
  then have "filter (matches w) (rows s) \<noteq> []" by (auto simp: prisma_count_def)
  then obtain t where "matches w t" by (auto simp: filter_empty_conv)
  then show ?thesis by (rule matches_where_valid)
qed

subsection \<open>The health check\<close>

lemmas server_defs = pass_on_def rate_limit_def path_under_def startsWith_def
  express_static_def ends_with_slash_def mount_def

lemma server_first_health:
  "\<not> file_exists E ''dist/health'' \<Longrightarrow> \<not> dir_exists E ''dist/health'' \<Longrightarrow>
   server_first E \<lparr>rq_method = GET, rq_path = ''/health''\<rparr> = Respond (Json 200 (health_payload E))"
  by (simp add: server_first_def server_defs app_get_def health_route_def)

lemma server_second_health_eq:
  "server_second E \<lparr>rq_method = GET, rq_path = ''/health''\<rparr> =
     (if file_exists E ''../frontend/dist/health''
      then Respond (SendFile ''../frontend/dist/health'')
      else if dir_exists E ''../frontend/dist/health''
           then Respond (Redirect ''/health/'')
           else if file_exists E ''../frontend/dist/index.html''
                then Respond (SendFile ''../frontend/dist/index.html'')
                else Fail)"
  by (simp add: server_second_def server_defs app_get_star_def spa_fallback_def)

text \<open>
  C8: \<open>GET /health\<close> answers with the JSON payload \<open>{status: "OK", timestamp}\<close> in both
  server variants. The first variant does (\<open>server_first_health\<close>, when the static
  directory holds no file or directory of that name). In the second variant the catch-all
  route is registered before the health check and answers every GET outside \<open>/api\<close>:
  whatever the environment, \<open>GET /health\<close> never gets the health payload there.
\<close>

theorem C8_health_shadowed_in_second_variant:
  "server_second E \<lparr>rq_method = GET, rq_path = ''/health''\<rparr>
     \<noteq> Respond (Json 200 (health_payload E))"
  by (simp add: server_second_def server_defs app_get_star_def spa_fallback_def)

subsection \<open>Export rows and List pages\<close>

lemma route_export_eq:
  assumes "validateGetTickets env q" and "where_valid (build_where env q)"
  shows "route_get_tickets_export env q s =
     (if prisma_findMany_all (build_where env q) s = []
      then Inl (createError ''No tickets found for given filters'' 404)
      else Inr \<lparr>x_contentType = ''text/csv'',
                x_contentDisposition = ''attachment; filename='' @ [CHR 0x22] @ ''tickets.csv'' @ [CHR 0x22],
                x_csv = json2csv_parse export_fields
                  (map (ticket_object env) (prisma_findMany_all (build_where env q) s))\<rparr>)"
  using assms(1) by (simp add: route_get_tickets_export_def export_eq[OF assms(2)])

lemma route_list_total:
  assumes "route_get_tickets env q s = Inr r"
  shows "r_totalTickets r = int (length (filter (matches (build_where env q)) (rows s)))"
  using route_list_Inr[OF assms] by (auto simp: prisma_count_def)

text \<open>
  C3: an Export request whose filter matches at least one record answers with a CSV
  whose header is exactly \<open>id, tripId, tripDate, driverId, reason, city, serviceType,
  customerPhone, agentName, createdAt\<close>, in that order, and whose number of data rows is
  the number of matching records: the \<open>totalTickets\<close> that every successful List request
  with the same filter (whatever its page and limit) reports. Each data row holds the
  ten values of one matching record in the order of the header.
\<close>

theorem C3_export_rows_match_list_total:
  assumes "validateGetTickets env q" and "validateGetTickets env q'"
    and "q_reason q' = q_reason q" and "q_start_date q' = q_start_date q"
    and "q_end_date q' = q_end_date q"
    and "1 \<le> prisma_count (build_where env q) s"
  shows "\<exists>x. route_get_tickets_export env q s = Inr x \<and>
           csv_header (x_csv x) =
             [''id'', ''tripId'', ''tripDate'', ''driverId'', ''reason'', ''city'',
              ''serviceType'', ''customerPhone'', ''agentName'', ''createdAt''] \<and>
           int (length (csv_rows (x_csv x))) = prisma_count (build_where env q) s \<and>
           (\<forall>r. route_get_tickets env q' s = Inr r \<longrightarrow>
              r_totalTickets r = int (length (csv_rows (x_csv x)))) \<and>
           csv_rows (x_csv x) =
             map (\<lambda>t. map (map_of (ticket_object env t)) export_fields)
               (orderBy_createdAt_desc (filter (matches (build_where env q)) (rows s)))"
proof -
  let ?w = "build_where env q"
  let ?x = "\<lparr>x_contentType = ''text/csv'',
             x_contentDisposition = ''attachment; filename='' @ [CHR 0x22] @ ''tickets.csv'' @ [CHR 0x22],
             x_csv = json2csv_parse export_fields
               (map (ticket_object env) (prisma_findMany_all ?w s))\<rparr>"
  have wv: "where_valid ?w" using assms(6) by (rule count_where_valid)
  have ne: "prisma_findMany_all ?w s \<noteq> []"
    using assms(6) by (simp add: findMany_all_empty_iff)
  have ex: "route_get_tickets_export env q s = Inr ?x"
    using ne by (simp add: route_export_eq[OF assms(1) wv])
  have hdr: "csv_header (x_csv ?x) =
             [''id'', ''tripId'', ''tripDate'', ''driverId'', ''reason'', ''city'',
              ''serviceType'', ''customerPhone'', ''agentName'', ''createdAt'']"
    by (simp add: json2csv_parse_def export_fields_def)
  have len: "int (length (csv_rows (x_csv ?x))) = prisma_count ?w s"
    by (simp add: json2csv_parse_def findMany_all_length)
  have same: "build_where env q' = ?w"
    using assms(3-5) by (rule build_where_same_filter)
  have tot: "\<forall>r. route_get_tickets env q' s = Inr r \<longrightarrow>
              r_totalTickets r = int (length (csv_rows (x_csv ?x)))"
    using len route_list_total[of env q' s] by (simp add: same prisma_count_def)
  have rws: "csv_rows (x_csv ?x) =
             map (\<lambda>t. map (map_of (ticket_object env t)) export_fields)
               (orderBy_createdAt_desc (filter (matches ?w) (rows s)))"
    by (simp add: json2csv_parse_def prisma_findMany_all_def comp_def)
  show ?thesis using ex hdr len tot rws by blast
qed

lemma no_filter_where: "build_where env no_filter = \<lparr>w_reason = None, w_tripDate = None\<rparr>"
  by (simp add: build_where_def no_filter_def truthy_def)

lemma one_ticket_count: "prisma_count (build_where example_env no_filter) one_ticket_store = 1"
  by (simp add: prisma_count_def no_filter_where matches_def one_ticket_store_def)

lemma no_filter_valid: "validateGetTickets example_env no_filter"
  "where_valid (build_where example_env no_filter)"
  by (simp_all add: validateGetTickets_def optional_def no_filter_def no_filter_where[unfolded no_filter_def]
      where_valid_def)

lemma no_filter_numbers: "pageNum_of no_filter = Some 1" "limitNum_of no_filter = Some 20"
  by (simp_all add: pageNum_of_def limitNum_of_def no_filter_def default_numbers finite_value_def)

lemma one_ticket_list:
  "route_get_tickets example_env no_filter one_ticket_store =
     Inr \<lparr>r_page = 1, r_totalPages = 1, r_totalTickets = 1,
          r_tickets = [ticket_object example_env (example_ticket 10 1704110400000 1704200000000)]\<rparr>"
proof -
  have w: "prisma_findMany_all (build_where example_env no_filter) one_ticket_store =
      [example_ticket 10 1704110400000 1704200000000]"
    by (simp add: prisma_findMany_all_def orderBy_createdAt_desc_def no_filter_where
        matches_def one_ticket_store_def)
  have safe: "safe_integer ((1 - 1) * 20)" "safe_integer 20" by (simp_all add: safe_integer_def)
  show ?thesis
    by (simp add: route_list_accepted[OF no_filter_valid no_filter_numbers safe]
        prisma_findMany_def w one_ticket_count ceil_div_def)
qed

text \<open>
  Export and List with no filter on a store of one record.
\<close>

theorem C3_witness:
  "validateGetTickets example_env no_filter \<and>
   prisma_count (build_where example_env no_filter) one_ticket_store = 1 \<and>
   (\<exists>x r. route_get_tickets_export example_env no_filter one_ticket_store = Inr x \<and>
        route_get_tickets example_env no_filter one_ticket_store = Inr r \<and>
        csv_header (x_csv x) =
          [''id'', ''tripId'', ''tripDate'', ''driverId'', ''reason'', ''city'',
           ''serviceType'', ''customerPhone'', ''agentName'', ''createdAt''] \<and>
        length (csv_rows (x_csv x)) = 1 \<and> r_totalTickets r = 1)"
proof -
  have one: "1 \<le> prisma_count (build_where example_env no_filter) one_ticket_store"
    by (simp add: one_ticket_count)
  show ?thesis
    using C3_export_rows_match_list_total[OF no_filter_valid(1) no_filter_valid(1) refl refl refl one]
    by (auto simp: no_filter_valid one_ticket_count one_ticket_list)
qed

text \<open>
  C4: in a List request \<open>page\<close> defaults to 1 and \<open>limit\<close> to 20; a successful response
  holds the records at the offsets \<open>(page-1)*limit\<close> to \<open>(page-1)*limit + limit - 1\<close> of
  the matching records ordered by \<open>createdAt\<close> descending, with \<open>totalTickets\<close> the number of
  matching records and \<open>totalPages = ceil(totalTickets / limit)\<close>. In particular page 2
  with limit 10 over 15 matching records succeeds with the records 11 to 15 (five
  records) and \<open>totalPages = 2\<close>.
\<close>

theorem C4_list_page_window:
  assumes "validateGetTickets env q" and "pageNum_of q = Some p" and "limitNum_of q = Some l"
  shows "(q_page q = None \<longrightarrow> p = 1) \<and> (q_limit q = None \<longrightarrow> l = 20) \<and>
         (\<forall>r. route_get_tickets env q s = Inr r \<longrightarrow>
            r_page r = p \<and>
            r_tickets r =
              map (ticket_object env)
                (take (nat l) (drop (nat ((p - 1) * l))
                   (orderBy_createdAt_desc (filter (matches (build_where env q)) (rows s))))) \<and>
            r_totalTickets r = int (length (filter (matches (build_where env q)) (rows s))) \<and>
            r_totalPages r = \<lceil>real_of_int (r_totalTickets r) / real_of_int l\<rceil>) \<and>
         sorted_wrt (\<lambda>a b. t_createdAt b \<le> t_createdAt a)
           (orderBy_createdAt_desc (filter (matches (build_where env q)) (rows s))) \<and>
         (p = 2 \<and> l = 10 \<and> length (filter (matches (build_where env q)) (rows s)) = 15 \<longrightarrow>
            (\<exists>r. route_get_tickets env q s = Inr r \<and>
               r_tickets r =
                 map (ticket_object env)
                   (drop 10 (orderBy_createdAt_desc (filter (matches (build_where env q)) (rows s)))) \<and>
               length (r_tickets r) = 5 \<and> r_totalPages r = 2))"
proof -
  let ?w = "build_where env q"
  let ?all = "orderBy_createdAt_desc (filter (matches ?w) (rows s))"
  note pl = validated_numbers(1)[OF assms(1,2)] validated_numbers(2)[OF assms(1,3)]
  have win: "prisma_findMany ?w ((p - 1) * l) l s = take (nat l) (drop (nat ((p - 1) * l)) ?all)"
    using pl(2) by (simp add: prisma_findMany_def prisma_findMany_all_def)
  have cnt: "prisma_count ?w s = int (length (filter (matches ?w) (rows s)))"
    by (simp add: prisma_count_def)
  have a: "q_page q = None \<longrightarrow> p = 1"
    using assms(2) by (auto simp: pageNum_of_def default_numbers finite_value_def)
  have b: "q_limit q = None \<longrightarrow> l = 20"
    using assms(3) by (auto simp: limitNum_of_def default_numbers finite_value_def)
  have c: "\<forall>r. route_get_tickets env q s = Inr r \<longrightarrow>
            r_page r = p \<and>
            r_tickets r = map (ticket_object env) (take (nat l) (drop (nat ((p - 1) * l)) ?all)) \<and>
            r_totalTickets r = int (length (filter (matches ?w) (rows s))) \<and>
            r_totalPages r = \<lceil>real_of_int (r_totalTickets r) / real_of_int l\<rceil>"
  proof (intro allI impI)
    fix r assume "route_get_tickets env q s = Inr r"
    from route_list_Inr[OF this] obtain p' l' where
      h: "pageNum_of q = Some p'" "limitNum_of q = Some l'"
      "r = \<lparr>r_page = p', r_totalPages = ceil_div (prisma_count ?w s) l',
             r_totalTickets = prisma_count ?w s,
             r_tickets = map (ticket_object env) (prisma_findMany ?w ((p' - 1) * l') l' s)\<rparr>"
      by blast
    have e: "p' = p" "l' = l" using h(1,2) assms(2,3) by simp_all
    show "r_page r = p \<and>
            r_tickets r = map (ticket_object env) (take (nat l) (drop (nat ((p - 1) * l)) ?all)) \<and>
            r_totalTickets r = int (length (filter (matches ?w) (rows s))) \<and>
            r_totalPages r = \<lceil>real_of_int (r_totalTickets r) / real_of_int l\<rceil>"
      using pl(2) by (simp add: h(3) e win cnt ceil_div_real)
  qed
  have d: "sorted_wrt (\<lambda>a b. t_createdAt b \<le> t_createdAt a) ?all"
    by (rule orderBy_sorted_desc)
  have e: "p = 2 \<and> l = 10 \<and> length (filter (matches ?w) (rows s)) = 15 \<longrightarrow>
            (\<exists>r. route_get_tickets env q s = Inr r \<and>
               r_tickets r = map (ticket_object env) (drop 10 ?all) \<and>
               length (r_tickets r) = 5 \<and> r_totalPages r = 2)"
  proof
    assume h: "p = 2 \<and> l = 10 \<and> length (filter (matches ?w) (rows s)) = 15"
    then have len: "length ?all = 15" by (simp add: orderBy_same_rows)
    have "1 \<le> prisma_count ?w s" using h by (simp add: cnt)
    then have wv: "where_valid ?w" by (rule count_where_valid)
    have safe: "safe_integer ((p - 1) * l)" "safe_integer l"
      using h by (simp_all add: safe_integer_def)
    note le = route_list_accepted[OF assms(1) wv assms(2,3) safe, of s]
    have "take (nat l) (drop (nat ((p - 1) * l)) ?all) = take 10 (drop 10 ?all)"
      using h by simp
    also have "\<dots> = drop 10 ?all" using len by simp
    finally have w10: "prisma_findMany ?w ((p - 1) * l) l s = drop 10 ?all"
      by (simp only: win)
    have ne: "drop 10 ?all \<noteq> []" using len by simp
    have l5: "length (drop 10 ?all) = 5" using len by simp
    have tp: "ceil_div (prisma_count ?w s) l = 2" using h by (simp add: cnt ceil_div_def)
    show "\<exists>r. route_get_tickets env q s = Inr r \<and>
               r_tickets r = map (ticket_object env) (drop 10 ?all) \<and>
               length (r_tickets r) = 5 \<and> r_totalPages r = 2"
      using ne l5 tp by (simp add: le w10)
  qed
  show ?thesis using a b c d e by blast
qed

lemma page_two_of_ten_facts:
  "validateGetTickets example_env page_two_of_ten" "pageNum_of page_two_of_ten = Some 2"
  "limitNum_of page_two_of_ten = Some 10"
  by (simp_all add: validateGetTickets_def optional_def page_two_of_ten_def no_filter_def
      is_positive_integer_def pageNum_of_def limitNum_of_def parseInt_examples finite_value_def
      is_radix_digit_def digit_value_def radix_value_def digit_of_def)

lemma fifteen_matching:
  "filter (matches (build_where example_env page_two_of_ten)) (rows fifteen_store) = rows fifteen_store"
  by (simp add: build_where_def page_two_of_ten_def no_filter_def truthy_def matches_def)

lemma fifteen_ordered:
  "orderBy_createdAt_desc (rows fifteen_store) =
     map (\<lambda>n. example_ticket n 1704110400000 (1704200000000 + n))
       [15, 14, 13, 12, 11, 10, 9, 8, 7, 6, 5, 4, 3, 2, 1]"
  by (simp add: orderBy_createdAt_desc_def fifteen_store_def example_ticket_def)

text \<open>
  Page 2 with limit 10 on a store of fifteen records, created in the order of their
  identifiers: the response holds the records 5, 4, 3, 2, 1.
\<close>

theorem C4_witness:
  "validateGetTickets example_env page_two_of_ten \<and>
   pageNum_of page_two_of_ten = Some 2 \<and> limitNum_of page_two_of_ten = Some 10 \<and>
   length (filter (matches (build_where example_env page_two_of_ten)) (rows fifteen_store)) = 15 \<and>
   (\<exists>r. route_get_tickets example_env page_two_of_ten fifteen_store = Inr r \<and>
      r_tickets r =
        map (\<lambda>n. ticket_object example_env (example_ticket n 1704110400000 (1704200000000 + n)))
          [5, 4, 3, 2, 1] \<and>
      r_totalPages r = 2)"
proof -
  have n: "length (filter (matches (build_where example_env page_two_of_ten)) (rows fifteen_store)) = 15"
    by (simp add: fifteen_matching) (simp add: fifteen_store_def)
  show ?thesis
    using C4_list_page_window[OF page_two_of_ten_facts, of fifteen_store] n
    by (auto simp: page_two_of_ten_facts fifteen_matching fifteen_ordered)
qed

subsection \<open>List and Export: the not-found answer\<close>

lemma get_tickets_not_rejected:
  assumes "validateGetTickets env q" and "get_tickets env q s \<noteq> Inl PrismaRejected"
  shows "\<exists>p l. pageNum_of q = Some p \<and> limitNum_of q = Some l \<and> 1 \<le> p \<and> 1 \<le> l \<and>
           safe_integer ((p - 1) * l) \<and> safe_integer l \<and> where_valid (build_where env q)"
proof -
  let ?pn = "parseInt (case q_page q of None \<Rightarrow> ''1'' | Some p \<Rightarrow> p)"
  let ?ln = "parseInt (case q_limit q of None \<Rightarrow> ''20'' | Some l \<Rightarrow> l)"
  have wv: "where_valid (build_where env q)"
    using assms(2) by (auto simp: get_tickets_def Let_def split: if_splits)
  obtain p sk tk where c: "?pn = Finite p" "prisma_int (js_times (js_minus_1 ?pn) ?ln) = Some sk"
      "prisma_int ?ln = Some tk"
    using assms(2) wv
    by (auto simp: get_tickets_def Let_def split: number.splits option.splits if_splits)
  have ln: "?ln = Finite tk" and stk: "safe_integer tk"
    using prisma_int_Finite[OF c(3)] by simp_all
  have p: "pageNum_of q = Some p" using c(1) by (simp add: pageNum_of_def finite_value_Some)
  have l: "limitNum_of q = Some tk" using ln by (simp add: limitNum_of_def finite_value_Some)
  have p1: "1 \<le> p" and l1: "1 \<le> tk"
    using validated_numbers[OF assms(1)] p l by blast+
  have "safe_integer ((p - 1) * tk)"
    using c(2) by (simp add: c(1) ln skip_accepted[OF l1])
  then show ?thesis using p l p1 l1 stk wv by blast
qed

lemma route_list_refused:
  assumes "validateGetTickets env q"
    and "\<not> where_valid (build_where env q) \<or> prisma_int (skip_of q) = None
           \<or> prisma_int (take_of q) = None"
  shows "route_get_tickets env q s = Inl PrismaRejected"
proof (rule ccontr)
  assume "route_get_tickets env q s \<noteq> Inl PrismaRejected"
  then have "get_tickets env q s \<noteq> Inl PrismaRejected"
    using assms(1) by (simp add: route_get_tickets_def)
  from get_tickets_not_rejected[OF assms(1) this] obtain p l where
    h: "pageNum_of q = Some p" "limitNum_of q = Some l" "1 \<le> l"
      "safe_integer ((p - 1) * l)" "safe_integer l" "where_valid (build_where env q)"
    by blast
  have pn: "parseInt (case q_page q of None \<Rightarrow> ''1'' | Some p \<Rightarrow> p) = Finite p"
    using h(1) by (simp add: pageNum_of_def finite_value_Some)
  have ln: "parseInt (case q_limit q of None \<Rightarrow> ''20'' | Some l \<Rightarrow> l) = Finite l"
    using h(2) by (simp add: limitNum_of_def finite_value_Some)
  have "prisma_int (skip_of q) = Some ((p - 1) * l)"
    using h(4) by (simp add: skip_of_def pn ln skip_accepted[OF h(3)])
  moreover have "prisma_int (take_of q) = Some l"
    using h(5) by (simp add: take_of_def ln prisma_int_def)
  ultimately show False using assms(2) h(6) by simp
qed

text \<open>
  C1, amended: an Export request fails with the "not found" error of status 404 if and
  only if its date range holds no Invalid Date and zero records match the filter. A List
  request whose date range holds no Invalid Date and whose \<open>skip = (page-1)*limit\<close> and
  \<open>limit\<close> are safe integers (of magnitude at most \<open>2^53 - 1\<close>) fails with that error if
  and only if the requested page holds no record, which is the case whenever zero records
  match. A List request whose date range holds an Invalid Date, or whose \<open>skip\<close> or
  \<open>limit\<close> is beyond the doubles (\<open>Infinity\<close>), is refused by the database client and
  gets the client's error, not the 404. Neither route returns an empty page or an empty
  CSV.
\<close>

theorem C1_not_found_iff_nothing_to_show:
  assumes "validateGetTickets env q"
  shows "(route_get_tickets_export env q s = Inl (createError ''No tickets found for given filters'' 404)
            \<longleftrightarrow> where_valid (build_where env q) \<and> prisma_count (build_where env q) s = 0) \<and>
         (\<forall>x. route_get_tickets_export env q s = Inr x \<longrightarrow> csv_rows (x_csv x) \<noteq> []) \<and>
         (\<forall>p l. where_valid (build_where env q) \<and> pageNum_of q = Some p \<and> limitNum_of q = Some l \<and>
                safe_integer ((p - 1) * l) \<and> safe_integer l \<longrightarrow>
            (route_get_tickets env q s = Inl (createError ''No tickets found for given filters'' 404)
               \<longleftrightarrow> prisma_findMany (build_where env q) ((p - 1) * l) l s = []) \<and>
            (prisma_count (build_where env q) s = 0 \<longrightarrow>
               route_get_tickets env q s = Inl (createError ''No tickets found for given filters'' 404))) \<and>
         (\<not> where_valid (build_where env q) \<or> skip_of q = Infinity \<or> take_of q = Infinity \<longrightarrow>
            route_get_tickets env q s = Inl PrismaRejected) \<and>
         (\<forall>r. route_get_tickets env q s = Inr r \<longrightarrow> r_tickets r \<noteq> [])"
proof -
  let ?nf = "createError ''No tickets found for given filters'' 404"
  let ?w = "build_where env q"
  have a: "route_get_tickets_export env q s = Inl ?nf \<longleftrightarrow> where_valid ?w \<and> prisma_count ?w s = 0"
  proof (cases "where_valid ?w")
    case True
    then show ?thesis
      by (simp add: route_export_eq[OF assms True] findMany_all_empty_iff)
  next
    case False
    then show ?thesis
      using assms by (simp add: route_get_tickets_export_def get_tickets_export_def createError_def)
  qed
  have b: "\<forall>x. route_get_tickets_export env q s = Inr x \<longrightarrow> csv_rows (x_csv x) \<noteq> []"
    using assms
    by (auto simp: route_get_tickets_export_def get_tickets_export_def Let_def json2csv_parse_def
        split: if_splits)
  have c: "\<forall>p l. where_valid ?w \<and> pageNum_of q = Some p \<and> limitNum_of q = Some l \<and>
                safe_integer ((p - 1) * l) \<and> safe_integer l \<longrightarrow>
            (route_get_tickets env q s = Inl ?nf
               \<longleftrightarrow> prisma_findMany ?w ((p - 1) * l) l s = []) \<and>
            (prisma_count ?w s = 0 \<longrightarrow> route_get_tickets env q s = Inl ?nf)"
  proof (intro allI impI)
    fix p l
    assume h: "where_valid ?w \<and> pageNum_of q = Some p \<and> limitNum_of q = Some l \<and>
                safe_integer ((p - 1) * l) \<and> safe_integer l"
    then have eq: "route_get_tickets env q s =
       (if prisma_findMany ?w ((p - 1) * l) l s = [] then Inl ?nf
        else Inr \<lparr>r_page = p, r_totalPages = ceil_div (prisma_count ?w s) l,
                  r_totalTickets = prisma_count ?w s,
                  r_tickets = map (ticket_object env) (prisma_findMany ?w ((p - 1) * l) l s)\<rparr>)"
      using route_list_accepted[OF assms, of p l s] by blast
    show "(route_get_tickets env q s = Inl ?nf
               \<longleftrightarrow> prisma_findMany ?w ((p - 1) * l) l s = []) \<and>
            (prisma_count ?w s = 0 \<longrightarrow> route_get_tickets env q s = Inl ?nf)"
      by (simp add: eq findMany_empty_if_none)
  qed
  have e: "\<not> where_valid ?w \<or> skip_of q = Infinity \<or> take_of q = Infinity
            \<longrightarrow> route_get_tickets env q s = Inl PrismaRejected"
    using route_list_refused[OF assms, of s] by (auto simp: prisma_int_def)
  have f: "\<forall>r. route_get_tickets env q s = Inr r \<longrightarrow> r_tickets r \<noteq> []"
    using route_list_Inr[of env q s] by auto
  show ?thesis using a b c e f by blast
qed

lemma other_reason_facts:
  "validateGetTickets example_env other_reason"
  "where_valid (build_where example_env other_reason)"
  "pageNum_of other_reason = Some 1" "limitNum_of other_reason = Some 20"
  "prisma_count (build_where example_env other_reason) one_ticket_store = 0"
  by (simp_all add: validateGetTickets_def optional_def other_reason_def no_filter_def
      prisma_count_def build_where_def truthy_def matches_def one_ticket_store_def
      example_ticket_def where_valid_def pageNum_of_def limitNum_of_def default_numbers
      finite_value_def)

text \<open>
  A reason that no record carries, on a store of one record.
\<close>

theorem C1_witness:
  "validateGetTickets example_env other_reason \<and>
   prisma_count (build_where example_env other_reason) one_ticket_store = 0 \<and>
   route_get_tickets_export example_env other_reason one_ticket_store =
     Inl (createError ''No tickets found for given filters'' 404) \<and>
   route_get_tickets example_env other_reason one_ticket_store =
     Inl (createError ''No tickets found for given filters'' 404)"
proof -
  have safe: "safe_integer ((1 - 1) * 20)" "safe_integer 20" by (simp_all add: safe_integer_def)
  show ?thesis
    using C1_not_found_iff_nothing_to_show[OF other_reason_facts(1), of one_ticket_store] safe
    by (simp add: other_reason_facts)
qed

lemma page_two_facts:
  "validateGetTickets example_env page_two" "where_valid (build_where example_env page_two)"
  "pageNum_of page_two = Some 2" "limitNum_of page_two = Some 20"
  "safe_integer ((2 - 1) * 20)" "safe_integer 20"
  by (simp_all add: validateGetTickets_def optional_def page_two_def no_filter_def
      is_positive_integer_def pageNum_of_def limitNum_of_def parseInt_examples finite_value_def
      is_radix_digit_def digit_value_def radix_value_def digit_of_def
      build_where_def truthy_def where_valid_def safe_integer_def)

lemma page_two_count: "prisma_count (build_where example_env page_two) one_ticket_store = 1"
  by (simp add: prisma_count_def build_where_def page_two_def no_filter_def truthy_def
      matches_def one_ticket_store_def)

text \<open>
  C1 as stated fails for List: page 2 with the default limit on a store of one record
  gets the 404 error although one record matches the filter.
\<close>

theorem C1_empty_page_counterexample:
  "route_get_tickets example_env page_two one_ticket_store =
     Inl (createError ''No tickets found for given filters'' 404) \<and>
   prisma_count (build_where example_env page_two) one_ticket_store = 1"
proof -
  have "prisma_findMany (build_where example_env page_two) ((2 - 1) * 20) 20 one_ticket_store = []"
    by (simp add: prisma_findMany_def prisma_findMany_all_def orderBy_createdAt_desc_def
        one_ticket_store_def)
  then show ?thesis
    by (simp add: route_list_accepted[OF page_two_facts] page_two_count)
qed

lemma many_nines_facts:
  "many_nines \<noteq> []" "list_all (is_radix_digit 10) many_nines"
  "radix_value 10 many_nines = 10 ^ 310 - 1" "mathInt many_nines = Some (10 ^ 310 - 1)"
  "parseInt many_nines = Infinity"
  unfolding many_nines_def
  by (simp, rule nines_digits, rule radix_value_nines, rule parseInt_many_nines,
      rule parseInt_many_nines)

lemma huge_page_facts:
  "validateGetTickets example_env huge_page" "where_valid (build_where example_env huge_page)"
  "skip_of huge_page = Infinity"
proof -
  have "is_positive_integer many_nines"
    by (simp add: is_positive_integer_def many_nines_facts)
  then show "validateGetTickets example_env huge_page"
    by (simp add: validateGetTickets_def optional_def huge_page_def no_filter_def)
  show "where_valid (build_where example_env huge_page)"
    by (simp add: huge_page_def no_filter_def build_where_def truthy_def where_valid_def)
  show "skip_of huge_page = Infinity"
    by (simp add: skip_of_def huge_page_def no_filter_def many_nines_facts default_numbers
        js_minus_1_def js_times_def sign_of_def)
qed

text \<open>
  C9, amended: a List request whose \<open>skip = (page-1)*limit\<close> and \<open>limit\<close> are safe
  integers (of magnitude at most \<open>2^53 - 1\<close>) gets the error of status 404 exactly when its
  pagination window holds no record, and the window is empty exactly when the requested
  page is past the last page \<open>ceil(totalTickets / limit)\<close>; so such a page past the last
  one of a non-empty result set gets 404 instead of an empty page with the totals. A
  request whose \<open>skip\<close> or \<open>limit\<close> is beyond the doubles (\<open>Infinity\<close>) is refused by the
  database client: the route answers with the client's error, not with 404.
\<close>

theorem C9_page_past_the_end:
  assumes "validateGetTickets env q" and "where_valid (build_where env q)"
  shows "(\<forall>p l. pageNum_of q = Some p \<and> limitNum_of q = Some l \<and>
                safe_integer ((p - 1) * l) \<and> safe_integer l \<longrightarrow>
            (route_get_tickets env q s = Inl (createError ''No tickets found for given filters'' 404)
               \<longleftrightarrow> prisma_findMany (build_where env q) ((p - 1) * l) l s = []) \<and>
            (prisma_findMany (build_where env q) ((p - 1) * l) l s = []
               \<longleftrightarrow> ceil_div (prisma_count (build_where env q) s) l < p) \<and>
            (0 < prisma_count (build_where env q) s \<and>
             ceil_div (prisma_count (build_where env q) s) l < p \<longrightarrow>
               route_get_tickets env q s =
                 Inl (createError ''No tickets found for given filters'' 404))) \<and>
         (skip_of q = Infinity \<or> take_of q = Infinity \<longrightarrow>
            route_get_tickets env q s = Inl PrismaRejected)"
proof (intro conjI allI impI)
  fix p l
  assume h: "pageNum_of q = Some p \<and> limitNum_of q = Some l \<and>
                safe_integer ((p - 1) * l) \<and> safe_integer l"
  then have pl: "pageNum_of q = Some p" "limitNum_of q = Some l"
    "safe_integer ((p - 1) * l)" "safe_integer l" by simp_all
  have p1: "1 \<le> p" and l1: "1 \<le> l"
    using validated_numbers[OF assms(1)] pl(1,2) by blast+
  have skip: "0 \<le> (p - 1) * l" using p1 l1 by simp
  show a: "route_get_tickets env q s = Inl (createError ''No tickets found for given filters'' 404)
            \<longleftrightarrow> prisma_findMany (build_where env q) ((p - 1) * l) l s = []"
    by (simp add: route_list_accepted[OF assms pl])
  show b: "prisma_findMany (build_where env q) ((p - 1) * l) l s = []
            \<longleftrightarrow> ceil_div (prisma_count (build_where env q) s) l < p"
    by (simp add: findMany_empty_iff[OF skip l1] ceil_div_less_iff[OF l1])
  assume "0 < prisma_count (build_where env q) s \<and>
             ceil_div (prisma_count (build_where env q) s) l < p"
  then show "route_get_tickets env q s =
                 Inl (createError ''No tickets found for given filters'' 404)"
    using a b by blast
next
  assume "skip_of q = Infinity \<or> take_of q = Infinity"
  then show "route_get_tickets env q s = Inl PrismaRejected"
    using route_list_refused[OF assms(1), of s] by (auto simp: prisma_int_def)
qed

text \<open>
  Page 2 with the default limit on a store of one record, and the page written with 310
  nines on the same store.
\<close>

theorem C9_witness:
  "validateGetTickets example_env page_two \<and> where_valid (build_where example_env page_two) \<and>
   pageNum_of page_two = Some 2 \<and> limitNum_of page_two = Some 20 \<and>
   safe_integer ((2 - 1) * 20) \<and> safe_integer 20 \<and>
   prisma_count (build_where example_env page_two) one_ticket_store = 1 \<and>
   ceil_div 1 20 < (2 :: int) \<and>
   route_get_tickets example_env page_two one_ticket_store =
     Inl (createError ''No tickets found for given filters'' 404) \<and>
   skip_of huge_page = Infinity \<and>
   route_get_tickets example_env huge_page one_ticket_store = Inl PrismaRejected"
proof -
  have r: "skip_of huge_page = Infinity"
    by (simp add: huge_page_facts)
  show ?thesis
    using C9_page_past_the_end[OF page_two_facts(1,2), of one_ticket_store]
      C9_page_past_the_end[OF huge_page_facts(1,2), of one_ticket_store] r
    by (simp add: page_two_facts page_two_count ceil_div_def)
qed

text \<open>
  C9 as stated fails: the page written with 310 nines passes the validation and is past
  the last page of a result set of one record; \<open>parseInt\<close> reads it as \<open>Infinity\<close>, so is
  \<open>skip\<close>, the database client refuses the query, and the route answers with the client's
  error instead of 404.
\<close>

theorem C9_huge_page_counterexample:
  "validateGetTickets example_env huge_page \<and>
   q_page huge_page = Some many_nines \<and> mathInt many_nines = Some (10 ^ 310 - 1) \<and>
   prisma_count (build_where example_env huge_page) one_ticket_store = 1 \<and>
   ceil_div 1 20 < (10 ^ 310 - 1 :: int) \<and>
   route_get_tickets example_env huge_page one_ticket_store = Inl PrismaRejected"
proof -
  have c: "prisma_count (build_where example_env huge_page) one_ticket_store = 1"
    by (simp add: prisma_count_def build_where_def huge_page_def no_filter_def truthy_def
        matches_def one_ticket_store_def)
  have r: "route_get_tickets example_env huge_page one_ticket_store = Inl PrismaRejected"
    by (rule route_list_refused[OF huge_page_facts(1)]) (simp add: huge_page_facts prisma_int_def)
  have q: "q_page huge_page = Some many_nines" by (simp add: huge_page_def)
  show ?thesis
    using c r q by (simp add: huge_page_facts many_nines_facts ceil_div_def)
qed

subsection \<open>List and Export: the range of trip dates\<close>

lemma route_export_rows:
  assumes "route_get_tickets_export env q s = Inr x"
  shows "length (csv_rows (x_csv x)) = length (filter (matches (build_where env q)) (rows s))"
proof -
  have v: "validateGetTickets env q"
    using assms by (auto simp: route_get_tickets_export_def split: if_splits)
  have w: "where_valid (build_where env q)"
    using assms v
    by (auto simp: route_get_tickets_export_def get_tickets_export_def Let_def split: if_splits)
  show ?thesis
    using assms
    by (auto simp: route_export_eq[OF v w] json2csv_parse_def prisma_findMany_all_def
        orderBy_same_rows split: if_splits)
qed

lemma setHours_end_of_day:
  "setHours env (Some a) 23 59 59 999 =
     TimeClip (UTC env (LocalTime env a div msPerDay * msPerDay + 86399999))"
  by (simp add: setHours_def add.commute)

lemma setHours_start_of_day:
  "setHours env (Some b) 0 0 0 0 = TimeClip (UTC env (LocalTime env b div msPerDay * msPerDay))"
  by (simp add: setHours_def)

text \<open>
  The day the clocks go forward in New York, 10 March 2024 (its local midnight is 05:00
  universal time): \<open>setHours(23, 59, 59, 999)\<close> on that midnight gives the instant 23 hours
  less one millisecond later.
\<close>

lemma setHours_spring_forward:
  "LocalTime new_york_2024 1710046800000 = 1710028800000"
  "setHours new_york_2024 (Some 1710046800000) 0 0 0 0 = Some 1710046800000"
  "setHours new_york_2024 (Some 1710046800000) 23 59 59 999 = Some 1710129599999"
  "1710129599999 - 1710046800000 = (23 * 3600000 - 1 :: int)"
  by (simp_all add: setHours_def new_york_2024_def TimeClip_def msPerDay_def)

text \<open>
  C2, amended: in a List or Export request the \<open>tripDate\<close> range is, with only
  \<open>start_date\<close> supplied, from \<open>start_date\<close> as supplied to 23:59:59.999 of its day in the
  server's time zone; with only \<open>end_date\<close> supplied, from 00:00:00.000 of its day in the
  server's time zone to \<open>end_date\<close> as supplied; with both supplied, from \<open>start_date\<close> to
  \<open>end_date\<close>, each at its clock time as supplied; with neither, there is no range. A
  record matches if and only if its \<open>tripDate\<close> lies inclusively within the range (and its
  reason is the one asked for, when one is). Both routes count and return the records
  that match in this sense. The boundary of the local day is the one \<open>setHours\<close> computes:
  the day of the date's local time value, at the clock time asked for, converted back
  with the offset in force at that local time (provided the result is a time value a
  \<open>Date\<close> holds).
\<close>

theorem C2_tripDate_range_of_the_code:
  "(\<forall>sd a. truthy (q_start_date q) = Some sd \<and> truthy (q_end_date q) = None \<and>
      newDate env sd = Some a \<and>
      \<bar>UTC env (LocalTime env a div msPerDay * msPerDay + 86399999)\<bar> \<le> 8640000000000000 \<longrightarrow>
        (matches (build_where env q) t \<longleftrightarrow>
           reason_ok q t \<and> a \<le> t_tripDate t \<and>
           t_tripDate t \<le> UTC env (LocalTime env a div msPerDay * msPerDay + 86399999))) \<and>
   (\<forall>ed b. truthy (q_start_date q) = None \<and> truthy (q_end_date q) = Some ed \<and>
      newDate env ed = Some b \<and>
      \<bar>UTC env (LocalTime env b div msPerDay * msPerDay)\<bar> \<le> 8640000000000000 \<longrightarrow>
        (matches (build_where env q) t \<longleftrightarrow>
           reason_ok q t \<and> UTC env (LocalTime env b div msPerDay * msPerDay) \<le> t_tripDate t \<and>
           t_tripDate t \<le> b)) \<and>
   (\<forall>sd ed a b. truthy (q_start_date q) = Some sd \<and> truthy (q_end_date q) = Some ed \<and>
      newDate env sd = Some a \<and> newDate env ed = Some b \<longrightarrow>
        (matches (build_where env q) t \<longleftrightarrow>
           reason_ok q t \<and> a \<le> t_tripDate t \<and> t_tripDate t \<le> b)) \<and>
   (truthy (q_start_date q) = None \<and> truthy (q_end_date q) = None \<longrightarrow>
        (matches (build_where env q) t \<longleftrightarrow> reason_ok q t)) \<and>
   (\<forall>r. route_get_tickets env q s = Inr r \<longrightarrow>
      r_totalTickets r = int (length (filter (matches (build_where env q)) (rows s)))) \<and>
   (\<forall>x. route_get_tickets_export env q s = Inr x \<longrightarrow>
      length (csv_rows (x_csv x)) = length (filter (matches (build_where env q)) (rows s)))"
proof -
  have a: "\<forall>sd a. truthy (q_start_date q) = Some sd \<and> truthy (q_end_date q) = None \<and>
      newDate env sd = Some a \<and>
      \<bar>UTC env (LocalTime env a div msPerDay * msPerDay + 86399999)\<bar> \<le> 8640000000000000 \<longrightarrow>
        (matches (build_where env q) t \<longleftrightarrow>
           reason_ok q t \<and> a \<le> t_tripDate t \<and>
           t_tripDate t \<le> UTC env (LocalTime env a div msPerDay * msPerDay + 86399999))"
    by (simp add: matches_def build_where_def reason_ok_def Let_def setHours_end_of_day
        TimeClip_def)
  have b: "\<forall>ed b. truthy (q_start_date q) = None \<and> truthy (q_end_date q) = Some ed \<and>
      newDate env ed = Some b \<and>
      \<bar>UTC env (LocalTime env b div msPerDay * msPerDay)\<bar> \<le> 8640000000000000 \<longrightarrow>
        (matches (build_where env q) t \<longleftrightarrow>
           reason_ok q t \<and> UTC env (LocalTime env b div msPerDay * msPerDay) \<le> t_tripDate t \<and>
           t_tripDate t \<le> b)"
    by (simp add: matches_def build_where_def reason_ok_def Let_def setHours_start_of_day
        TimeClip_def)
  have c: "\<forall>sd ed a b. truthy (q_start_date q) = Some sd \<and> truthy (q_end_date q) = Some ed \<and>
      newDate env sd = Some a \<and> newDate env ed = Some b \<longrightarrow>
        (matches (build_where env q) t \<longleftrightarrow>
           reason_ok q t \<and> a \<le> t_tripDate t \<and> t_tripDate t \<le> b)"
    by (simp add: matches_def build_where_def reason_ok_def)
  have d: "truthy (q_start_date q) = None \<and> truthy (q_end_date q) = None \<longrightarrow>
        (matches (build_where env q) t \<longleftrightarrow> reason_ok q t)"
    by (simp add: matches_def build_where_def reason_ok_def)
  show ?thesis
    using a b c d route_list_total[of env q s] route_export_rows[of env q s] by blast
qed

lemma example_dates:
  "truthy (q_start_date start_only) = Some ''2024-01-01''" "truthy (q_end_date start_only) = None"
  "truthy (q_start_date end_only) = None" "truthy (q_end_date end_only) = Some ''2024-01-01''"
  "truthy (q_start_date both_dates) = Some ''2024-01-01''"
  "truthy (q_end_date both_dates) = Some ''2024-01-01''"
  "newDate example_env ''2024-01-01'' = Some 1704067200000"
  by (simp_all add: start_only_def end_only_def both_dates_def no_filter_def truthy_def
      example_env_def)

lemma example_days:
  "UTC example_env (LocalTime example_env 1704067200000 div msPerDay * msPerDay + 86399999)
     = 1704153599999"
  "UTC example_env (LocalTime example_env 1704067200000 div msPerDay * msPerDay) = 1704067200000"
  by (simp_all add: example_env_def msPerDay_def)

text \<open>
  A ticket of 2024-01-01 at noon and the date 2024-01-01, in UTC: the ticket matches
  \<open>start_date\<close> alone, and neither \<open>end_date\<close> alone nor both dates.
\<close>

theorem C2_witness:
  "truthy (q_start_date start_only) = Some ''2024-01-01'' \<and>
   truthy (q_end_date start_only) = None \<and>
   truthy (q_start_date end_only) = None \<and>
   truthy (q_end_date end_only) = Some ''2024-01-01'' \<and>
   truthy (q_start_date both_dates) = Some ''2024-01-01'' \<and>
   truthy (q_end_date both_dates) = Some ''2024-01-01'' \<and>
   newDate example_env ''2024-01-01'' = Some 1704067200000 \<and>
   \<bar>UTC example_env (LocalTime example_env 1704067200000 div msPerDay * msPerDay + 86399999)\<bar>
     \<le> 8640000000000000 \<and>
   \<bar>UTC example_env (LocalTime example_env 1704067200000 div msPerDay * msPerDay)\<bar>
     \<le> 8640000000000000 \<and>
   t_tripDate noon_ticket = 1704110400000 \<and>
   matches (build_where example_env start_only) noon_ticket \<and>
   \<not> matches (build_where example_env end_only) noon_ticket \<and>
   \<not> matches (build_where example_env both_dates) noon_ticket \<and>
   matches (build_where example_env no_filter) noon_ticket"
proof -
  have r: "reason_ok start_only noon_ticket" "reason_ok no_filter noon_ticket"
    by (simp_all add: reason_ok_def start_only_def no_filter_def truthy_def)
  have d: "t_tripDate noon_ticket = 1704110400000"
    by (simp add: noon_ticket_def example_ticket_def)
  have n: "truthy (q_start_date no_filter) = None" "truthy (q_end_date no_filter) = None"
    by (simp_all add: no_filter_def truthy_def)
  have a: "matches (build_where example_env start_only) noon_ticket"
    using C2_tripDate_range_of_the_code[where q = start_only and env = example_env
        and t = noon_ticket and s = one_ticket_store]
    by (simp add: example_dates example_days r d)
  have b: "\<not> matches (build_where example_env end_only) noon_ticket"
    using C2_tripDate_range_of_the_code[where q = end_only and env = example_env
        and t = noon_ticket and s = one_ticket_store]
    by (simp add: example_dates example_days d)
  have c: "\<not> matches (build_where example_env both_dates) noon_ticket"
    using C2_tripDate_range_of_the_code[where q = both_dates and env = example_env
        and t = noon_ticket and s = one_ticket_store]
    by (simp add: example_dates d)
  have e: "matches (build_where example_env no_filter) noon_ticket"
    using C2_tripDate_range_of_the_code[where q = no_filter and env = example_env
        and t = noon_ticket and s = one_ticket_store]
    by (simp add: n r)
  show ?thesis using a b c e d example_dates by (simp add: example_days)
qed

lemma end_only_valid: "validateGetTickets example_env end_only"
  "where_valid (build_where example_env end_only)"
  "pageNum_of end_only = Some 1" "limitNum_of end_only = Some 20"
  "safe_integer ((1 - 1) * 20)" "safe_integer 20"
  by (simp_all add: validateGetTickets_def optional_def end_only_def no_filter_def
      is_valid_date_def example_env_def pageNum_of_def limitNum_of_def default_numbers
      finite_value_def build_where_def truthy_def where_valid_def setHours_def TimeClip_def
      msPerDay_def safe_integer_def Let_def)

text \<open>
  C2 as stated fails: with only \<open>end_date = 2024-01-01\<close> supplied (midnight UTC), a ticket
  of that day at noon lies within 00:00:00 and 23:59:59 of \<open>end_date\<close>, and the code does
  not match it: both routes answer 404 on the store that holds it. And with only
  \<open>start_date = 2024-01-01T10:00:00.000Z\<close> supplied, a ticket of that day at midnight lies
  within 00:00:00 and 23:59:59 of \<open>start_date\<close>, and the code does not match it.
\<close>

theorem C2_end_date_only_counterexample:
  "newDate example_env ''2024-01-01'' = Some 1704067200000 \<and>
   rows one_ticket_store = [noon_ticket] \<and>
   1704067200000 \<le> t_tripDate noon_ticket \<and>
   t_tripDate noon_ticket \<le> 1704067200000 + 86399000 \<and>
   \<not> matches (build_where example_env end_only) noon_ticket \<and>
   route_get_tickets example_env end_only one_ticket_store =
     Inl (createError ''No tickets found for given filters'' 404) \<and>
   route_get_tickets_export example_env end_only one_ticket_store =
     Inl (createError ''No tickets found for given filters'' 404) \<and>
   newDate example_env ''2024-01-01T10:00:00.000Z'' = Some (1704067200000 + 10 * 3600000) \<and>
   1704067200000 \<le> t_tripDate midnight_ticket \<and>
   t_tripDate midnight_ticket \<le> 1704067200000 + 86399000 \<and>
   \<not> matches (build_where example_env late_start) midnight_ticket"
proof -
  have m: "\<not> matches (build_where example_env end_only) noon_ticket"
    by (simp add: matches_def build_where_def end_only_def no_filter_def truthy_def Let_def
        example_env_def setHours_def TimeClip_def msPerDay_def noon_ticket_def example_ticket_def)
  have rw: "rows one_ticket_store = [noon_ticket]"
    by (simp add: one_ticket_store_def noon_ticket_def)
  have e: "prisma_findMany_all (build_where example_env end_only) one_ticket_store = []"
    using m by (simp add: prisma_findMany_all_def orderBy_createdAt_desc_def rw)
  have l: "route_get_tickets example_env end_only one_ticket_store =
     Inl (createError ''No tickets found for given filters'' 404)"
    by (simp add: route_list_accepted[OF end_only_valid] prisma_findMany_def e)
  have x: "route_get_tickets_export example_env end_only one_ticket_store =
     Inl (createError ''No tickets found for given filters'' 404)"
    by (simp add: route_export_eq[OF end_only_valid(1,2)] e)
  have d: "t_tripDate noon_ticket = 1704110400000" "t_tripDate midnight_ticket = 1704067200000"
    by (simp_all add: noon_ticket_def midnight_ticket_def example_ticket_def)
  have n: "newDate example_env ''2024-01-01T10:00:00.000Z'' = Some (1704067200000 + 10 * 3600000)"
    by (simp add: example_env_def)
  have m2: "\<not> matches (build_where example_env late_start) midnight_ticket"
    by (simp add: matches_def build_where_def late_start_def no_filter_def truthy_def Let_def
        example_env_def setHours_def TimeClip_def msPerDay_def midnight_ticket_def
        example_ticket_def)
  show ?thesis using m rw l x n m2 by (simp add: d example_dates)
qed

subsection \<open>Delete\<close>

lemma delete_ticket_NaN:
  "parseInt id_param = NaN \<Longrightarrow>
   delete_ticket env id_param s = (Inl (createError ''Invalid ticket ID'' 400), s)"
  by (simp add: delete_ticket_def isNaN_def)

lemma delete_ticket_Finite:
  assumes "parseInt id_param = Finite n" and "safe_integer n" and "idColumn env n"
  shows "delete_ticket env id_param s =
     (case prisma_findUnique n s of
        None \<Rightarrow> (Inl (createError ''Ticket not found'' 404), s)
      | Some ticket \<Rightarrow>
          (Inr \<lparr>d_status = 200, d_message = ''Ticket deleted successfully''\<rparr>,
           prisma_delete n s))"
  using assms by (simp add: delete_ticket_def isNaN_def prisma_int_def)

lemma delete_ticket_refused:
  assumes "parseInt id_param = Infinity \<or> parseInt id_param = NegInfinity \<or>
           (\<exists>n. parseInt id_param = Finite n \<and> \<not> idColumn env n)"
  shows "delete_ticket env id_param s = (Inl PrismaRejected, s)"
  using assms by (auto simp: delete_ticket_def isNaN_def prisma_int_def)

lemma findUnique_None_iff: "prisma_findUnique n s = None \<longleftrightarrow> n \<notin> ids s"
  by (auto simp: prisma_findUnique_def ids_def find_None_iff)

lemma delete_400_iff:
  "fst (delete_ticket env id_param s) = Inl (createError ''Invalid ticket ID'' 400)
     \<longleftrightarrow> parseInt id_param = NaN"
  by (auto simp: delete_ticket_def isNaN_def Let_def createError_def
      split: option.splits if_splits)

lemma delete_store_cases:
  "snd (delete_ticket env id_param s) = s \<or>
   (\<exists>n. snd (delete_ticket env id_param s) = prisma_delete n s)"
  by (auto simp: delete_ticket_def Let_def split: option.splits if_splits)

text \<open>
  C5, amended: a Delete whose path identifier does not parse as an integer fails with the
  error of status 400; one whose identifier parses to a safe integer that the identifier
  column takes and that no record carries fails with the error of status 404; one whose
  identifier parses to an infinity, or to an integer that the identifier column does not
  take, is refused by the database client and fails with the client's error. In all
  three cases the store is returned unchanged. "Does not parse" is \<open>parseInt\<close> giving
  \<open>NaN\<close>; it does so in particular for the empty identifier and for one whose first
  character is neither white space, a sign nor a decimal digit.
\<close>

theorem C5_delete_invalid_or_missing:
  "(parseInt id_param = NaN \<longrightarrow>
      delete_ticket env id_param s = (Inl (createError ''Invalid ticket ID'' 400), s)) \<and>
   ((id_param = [] \<or> \<not> (is_white (hd id_param) \<or> hd id_param = CHR ''+'' \<or> hd id_param = CHR ''-''
        \<or> is_radix_digit 10 (hd id_param))) \<longrightarrow>
      delete_ticket env id_param s = (Inl (createError ''Invalid ticket ID'' 400), s)) \<and>
   (\<forall>n. parseInt id_param = Finite n \<and> safe_integer n \<and> idColumn env n \<and> n \<notin> ids s \<longrightarrow>
      delete_ticket env id_param s = (Inl (createError ''Ticket not found'' 404), s)) \<and>
   (parseInt id_param = Infinity \<or> parseInt id_param = NegInfinity \<or>
      (\<exists>n. parseInt id_param = Finite n \<and> \<not> idColumn env n) \<longrightarrow>
      delete_ticket env id_param s = (Inl PrismaRejected, s))"
proof (intro conjI impI allI)
  assume "parseInt id_param = NaN"
  then show "delete_ticket env id_param s = (Inl (createError ''Invalid ticket ID'' 400), s)"
    by (rule delete_ticket_NaN)
next
  assume "id_param = [] \<or> \<not> (is_white (hd id_param) \<or> hd id_param = CHR ''+'' \<or> hd id_param = CHR ''-''
        \<or> is_radix_digit 10 (hd id_param))"
  then have "mathInt id_param = None" by (rule mathInt_no_leading)
  then have "parseInt id_param = NaN" by (rule parseInt_of_mathInt(1))
  then show "delete_ticket env id_param s = (Inl (createError ''Invalid ticket ID'' 400), s)"
    by (rule delete_ticket_NaN)
next
  fix n assume h: "parseInt id_param = Finite n \<and> safe_integer n \<and> idColumn env n \<and> n \<notin> ids s"
  then have "prisma_findUnique n s = None" by (simp add: findUnique_None_iff)
  then show "delete_ticket env id_param s = (Inl (createError ''Ticket not found'' 404), s)"
    using h by (simp add: delete_ticket_Finite)
next
  assume "parseInt id_param = Infinity \<or> parseInt id_param = NegInfinity \<or>
      (\<exists>n. parseInt id_param = Finite n \<and> \<not> idColumn env n)"
  then show "delete_ticket env id_param s = (Inl PrismaRejected, s)"
    by (rule delete_ticket_refused)
qed

lemma example_column:
  "idColumn example_env 7" "idColumn example_env 10" "\<not> idColumn example_env 99999999999"
  "safe_integer 7" "safe_integer 10" "safe_integer 0" "idColumn example_env 0"
  by (simp_all add: example_env_def safe_integer_def)

text \<open>
  The identifier \<open>abc\<close>, the absent identifier \<open>7\<close> and the identifier \<open>99999999999\<close>, which
  a 32-bit column does not take, on a store holding the record 10.
\<close>

theorem C5_witness:
  "parseInt ''abc'' = NaN \<and>
   delete_ticket example_env ''abc'' one_ticket_store =
     (Inl (createError ''Invalid ticket ID'' 400), one_ticket_store) \<and>
   parseInt ''7'' = Finite 7 \<and> safe_integer 7 \<and> idColumn example_env 7 \<and>
   7 \<notin> ids one_ticket_store \<and>
   delete_ticket example_env ''7'' one_ticket_store =
     (Inl (createError ''Ticket not found'' 404), one_ticket_store) \<and>
   parseInt ''99999999999'' = Finite 99999999999 \<and> \<not> idColumn example_env 99999999999 \<and>
   delete_ticket example_env ''99999999999'' one_ticket_store =
     (Inl PrismaRejected, one_ticket_store)"
proof -
  have c: "7 \<notin> ids one_ticket_store" by (simp add: ids_def one_ticket_store_def example_ticket_def)
  show ?thesis
    using C5_delete_invalid_or_missing[of "''abc''" example_env one_ticket_store]
      C5_delete_invalid_or_missing[of "''7''" example_env one_ticket_store]
      C5_delete_invalid_or_missing[of "''99999999999''" example_env one_ticket_store] c
    by (simp add: parseInt_examples example_column)
qed

text \<open>
  C5 as stated fails: the identifier written with 310 nines is an integer that no record
  carries; \<open>parseInt\<close> reads it as \<open>Infinity\<close>, which is not \<open>NaN\<close>, the database client
  refuses the lookup, and the route answers with the client's error instead of 404.
\<close>

theorem C5_unrepresentable_identifier_counterexample:
  "many_nines \<noteq> [] \<and> list_all (is_radix_digit 10) many_nines \<and>
   mathInt many_nines = Some (10 ^ 310 - 1) \<and>
   \<not> isNaN (parseInt many_nines) \<and>
   (\<forall>n. n \<notin> ids \<lparr>rows = [], nextId = 1\<rparr>) \<and>
   delete_ticket example_env many_nines \<lparr>rows = [], nextId = 1\<rparr> =
     (Inl PrismaRejected, \<lparr>rows = [], nextId = 1\<rparr>)"
proof -
  have "delete_ticket example_env many_nines \<lparr>rows = [], nextId = 1\<rparr> =
     (Inl PrismaRejected, \<lparr>rows = [], nextId = 1\<rparr>)"
    by (rule delete_ticket_refused) (simp add: many_nines_facts)
  then show ?thesis by (simp add: many_nines_facts isNaN_def ids_def)
qed

lemma parseInt_leading_digits:
  assumes "ds \<noteq> []" and "list_all (is_radix_digit 10) ds"
    and "rest = [] \<or> \<not> is_radix_digit 10 (hd rest)"
    and "take 2 (ds @ rest) \<noteq> ''0x''" and "take 2 (ds @ rest) \<noteq> ''0X''"
  shows "parseInt (ds @ rest) = number_of_int (radix_value 10 ds)"
    and "parseInt ds = number_of_int (radix_value 10 ds)"
  using mathInt_leading_digits[OF assms] mathInt_digits[OF assms(1,2)]
  by (simp_all add: parseInt_def)

text \<open>
  C10, amended: a Delete whose path identifier begins with decimal digits, followed by
  nothing or by a character that is not a decimal digit, and that does not begin with
  \<open>0x\<close> or \<open>0X\<close>, is handled as the Delete of the leading digits alone. When the leading
  integer is a safe integer that the identifier column takes, that is 404 when no record
  carries it, and 200 and the removal of the record otherwise; when the leading digits
  are read as \<open>Infinity\<close> or as an integer the identifier column does not take, the
  database client refuses and the route answers with the client's error. An identifier
  that begins with \<open>0x\<close> or \<open>0X\<close> is read as a hexadecimal number. The error of status 400
  is produced exactly when \<open>parseInt\<close> finds no number.
\<close>

theorem C10_delete_reads_leading_integer:
  assumes "ds \<noteq> []" and "list_all (is_radix_digit 10) ds"
    and "rest = [] \<or> \<not> is_radix_digit 10 (hd rest)"
    and "take 2 (ds @ rest) \<noteq> ''0x''" and "take 2 (ds @ rest) \<noteq> ''0X''"
  shows "parseInt (ds @ rest) = number_of_int (radix_value 10 ds) \<and>
         delete_ticket env (ds @ rest) s = delete_ticket env ds s \<and>
         (safe_integer (radix_value 10 ds) \<and> idColumn env (radix_value 10 ds) \<longrightarrow>
            delete_ticket env (ds @ rest) s =
              (case prisma_findUnique (radix_value 10 ds) s of
                 None \<Rightarrow> (Inl (createError ''Ticket not found'' 404), s)
               | Some ticket \<Rightarrow>
                   (Inr \<lparr>d_status = 200, d_message = ''Ticket deleted successfully''\<rparr>,
                    prisma_delete (radix_value 10 ds) s))) \<and>
         (parseInt (ds @ rest) = Infinity \<or>
          (\<exists>k. parseInt (ds @ rest) = Finite k \<and> \<not> idColumn env k) \<longrightarrow>
            delete_ticket env (ds @ rest) s = (Inl PrismaRejected, s)) \<and>
         (\<forall>h. take 2 h = ''0x'' \<or> take 2 h = ''0X'' \<longrightarrow>
            parseInt h =
              (if takeWhile (is_radix_digit 16) (drop 2 h) = [] then NaN
               else number_of_int (radix_value 16 (takeWhile (is_radix_digit 16) (drop 2 h))))) \<and>
         (\<forall>other. fst (delete_ticket env other s) = Inl (createError ''Invalid ticket ID'' 400)
            \<longleftrightarrow> parseInt other = NaN)"
proof (intro conjI allI impI)
  note p = parseInt_leading_digits[OF assms]
  show "parseInt (ds @ rest) = number_of_int (radix_value 10 ds)" by (rule p(1))
  show "delete_ticket env (ds @ rest) s = delete_ticket env ds s"
    by (simp add: delete_ticket_def p)
  {
    assume "safe_integer (radix_value 10 ds) \<and> idColumn env (radix_value 10 ds)"
    then have sf: "safe_integer (radix_value 10 ds)" and col: "idColumn env (radix_value 10 ds)"
      by simp_all
    have "parseInt (ds @ rest) = Finite (radix_value 10 ds)"
      by (simp add: p(1) number_of_int_safe[OF sf])
    then show "delete_ticket env (ds @ rest) s =
              (case prisma_findUnique (radix_value 10 ds) s of
                 None \<Rightarrow> (Inl (createError ''Ticket not found'' 404), s)
               | Some ticket \<Rightarrow>
                   (Inr \<lparr>d_status = 200, d_message = ''Ticket deleted successfully''\<rparr>,
                    prisma_delete (radix_value 10 ds) s))"
      using sf col by (rule delete_ticket_Finite)
  }
  {
    assume "parseInt (ds @ rest) = Infinity \<or>
          (\<exists>k. parseInt (ds @ rest) = Finite k \<and> \<not> idColumn env k)"
    then show "delete_ticket env (ds @ rest) s = (Inl PrismaRejected, s)"
      by (intro delete_ticket_refused) blast
  }
  {
    fix h assume "take 2 h = ''0x'' \<or> take 2 h = ''0X''"
    then show "parseInt h =
              (if takeWhile (is_radix_digit 16) (drop 2 h) = [] then NaN
               else number_of_int (radix_value 16 (takeWhile (is_radix_digit 16) (drop 2 h))))"
      by (simp add: parseInt_def mathInt_hex_prefix)
  }
  {
    fix other
    show "fst (delete_ticket env other s) = Inl (createError ''Invalid ticket ID'' 400)
            \<longleftrightarrow> parseInt other = NaN"
      by (rule delete_400_iff)
  }
qed

text \<open>
  The identifiers \<open>10abc\<close> and \<open>7.9\<close> on a store holding the record 10.
\<close>

theorem C10_witness:
  "delete_ticket example_env (''10'' @ ''abc'') one_ticket_store =
     (Inr \<lparr>d_status = 200, d_message = ''Ticket deleted successfully''\<rparr>,
      \<lparr>rows = [], nextId = 11\<rparr>) \<and>
   delete_ticket example_env (''7'' @ ''.9'') one_ticket_store =
     (Inl (createError ''Ticket not found'' 404), one_ticket_store) \<and>
   parseInt ''0xA'' = Finite 10"
proof -
  have ev: "radix_value 10 ''10'' = 10" "radix_value 10 ''7'' = 7"
    "radix_value 16 ''A'' = 10"
    by (simp_all add: radix_value_def digit_of_def digit_value_def)
  have fu: "prisma_findUnique 10 one_ticket_store = Some (example_ticket 10 1704110400000 1704200000000)"
    "prisma_findUnique 7 one_ticket_store = None"
    by (simp_all add: prisma_findUnique_def one_ticket_store_def example_ticket_def)
  have del: "prisma_delete 10 one_ticket_store = \<lparr>rows = [], nextId = 11\<rparr>"
    by (simp add: prisma_delete_def one_ticket_store_def example_ticket_def)
  have p10: "''10'' \<noteq> []" "list_all (is_radix_digit 10) ''10''"
    "''abc'' = [] \<or> \<not> is_radix_digit 10 (hd ''abc'')"
    "take 2 (''10'' @ ''abc'') \<noteq> ''0x''" "take 2 (''10'' @ ''abc'') \<noteq> ''0X''"
    by (simp_all add: is_radix_digit_def digit_value_def)
  have p7: "''7'' \<noteq> []" "list_all (is_radix_digit 10) ''7''"
    "''.9'' = [] \<or> \<not> is_radix_digit 10 (hd ''.9'')"
    "take 2 (''7'' @ ''.9'') \<noteq> ''0x''" "take 2 (''7'' @ ''.9'') \<noteq> ''0X''"
    by (simp_all add: is_radix_digit_def digit_value_def)
  note i10 = C10_delete_reads_leading_integer[OF p10, of example_env one_ticket_store]
  note i7 = C10_delete_reads_leading_integer[OF p7, of example_env one_ticket_store]
  have "safe_integer (radix_value 10 ''10'') \<and> idColumn example_env (radix_value 10 ''10'') \<longrightarrow>
      delete_ticket example_env (''10'' @ ''abc'') one_ticket_store =
        (case prisma_findUnique (radix_value 10 ''10'') one_ticket_store of
           None \<Rightarrow> (Inl (createError ''Ticket not found'' 404), one_ticket_store)
         | Some ticket \<Rightarrow>
             (Inr \<lparr>d_status = 200, d_message = ''Ticket deleted successfully''\<rparr>,
              prisma_delete (radix_value 10 ''10'') one_ticket_store))"
    using i10 by (elim conjE)
  then have a: "delete_ticket example_env (''10'' @ ''abc'') one_ticket_store =
     (Inr \<lparr>d_status = 200, d_message = ''Ticket deleted successfully''\<rparr>,
      \<lparr>rows = [], nextId = 11\<rparr>)"
    by (simp add: ev fu del example_column)
  have "safe_integer (radix_value 10 ''7'') \<and> idColumn example_env (radix_value 10 ''7'') \<longrightarrow>
      delete_ticket example_env (''7'' @ ''.9'') one_ticket_store =
        (case prisma_findUnique (radix_value 10 ''7'') one_ticket_store of
           None \<Rightarrow> (Inl (createError ''Ticket not found'' 404), one_ticket_store)
         | Some ticket \<Rightarrow>
             (Inr \<lparr>d_status = 200, d_message = ''Ticket deleted successfully''\<rparr>,
              prisma_delete (radix_value 10 ''7'') one_ticket_store))"
    using i7 by (elim conjE)
  then have b: "delete_ticket example_env (''7'' @ ''.9'') one_ticket_store =
     (Inl (createError ''Ticket not found'' 404), one_ticket_store)"
    by (simp add: ev fu example_column)
  have "\<forall>h. take 2 h = ''0x'' \<or> take 2 h = ''0X'' \<longrightarrow>
            parseInt h =
              (if takeWhile (is_radix_digit 16) (drop 2 h) = [] then NaN
               else number_of_int (radix_value 16 (takeWhile (is_radix_digit 16) (drop 2 h))))"
    using i7 by (elim conjE)
  from this[rule_format, of "''0xA''"] have c: "parseInt ''0xA'' = Finite 10"
    by (simp add: is_radix_digit_def digit_value_def ev number_of_int_safe example_column)
  show ?thesis using a b c by blast
qed

text \<open>
  C10 as stated fails: \<open>0xA\<close> begins with the decimal digit \<open>0\<close>, followed by characters
  that are not decimal digits, so its leading integer is 0, which no record carries; the
  route reads it as the hexadecimal number 10 and deletes the record 10.
\<close>

theorem C10_hex_identifier_counterexample:
  "''0xA'' = ''0'' @ ''xA'' \<and> list_all (is_radix_digit 10) ''0'' \<and>
   list_all (\<lambda>c. \<not> is_radix_digit 10 c) ''xA'' \<and> radix_value 10 ''0'' = 0 \<and>
   safe_integer 0 \<and> idColumn example_env 0 \<and>
   prisma_findUnique 0 one_ticket_store = None \<and>
   delete_ticket example_env ''0xA'' one_ticket_store =
     (Inr \<lparr>d_status = 200, d_message = ''Ticket deleted successfully''\<rparr>,
      \<lparr>rows = [], nextId = 11\<rparr>)"
proof -
  have "delete_ticket example_env ''0xA'' one_ticket_store =
     (Inr \<lparr>d_status = 200, d_message = ''Ticket deleted successfully''\<rparr>,
      \<lparr>rows = [], nextId = 11\<rparr>)"
    by (simp add: delete_ticket_Finite[OF parseInt_examples(4) example_column(5,2)]
        prisma_findUnique_def prisma_delete_def one_ticket_store_def example_ticket_def)
  then show ?thesis
    by (simp add: is_radix_digit_def digit_value_def radix_value_def digit_of_def
        prisma_findUnique_def one_ticket_store_def example_ticket_def example_column)
qed

lemma ids_delete: "ids (prisma_delete n s) = ids s - {n}"
  by (auto simp: ids_def prisma_delete_def)

lemma nextId_delete: "nextId (prisma_delete n s) = nextId s"
  by (simp add: prisma_delete_def)

lemma store_ok_delete: "store_ok s \<Longrightarrow> store_ok (prisma_delete n s)"
  by (auto simp: store_ok_def prisma_delete_def distinct_map_filter list_all_iff)

lemma post_ticket_eq:
  assumes "newDate env (b_tripDate body) = Some d"
  shows "post_ticket env now body s =
     (Inr \<lparr>c_status = 201, c_message = ''Ticket created successfully'', c_ticketId = nextId s\<rparr>,
      s\<lparr>rows := rows s @ [fst (prisma_create body d now s)], nextId := nextId s + 1\<rparr>)"
  using assms by (simp add: post_ticket_def prisma_create_def Let_def)

lemma created_row:
  "fst (prisma_create body d now s) =
     \<lparr>t_id = nextId s, t_tripId = b_tripId body, t_tripDate = d, t_driverId = b_driverId body,
      t_reason = b_reason body, t_city = b_city body, t_serviceType = b_serviceType body,
      t_customerPhone = b_customerPhone body, t_agentName = b_agentName body,
      t_createdAt = now\<rparr>"
  by (simp add: prisma_create_def Let_def)

lemma post_store_cases:
  "snd (route_post_ticket v env now body s) = s \<or>
   (\<exists>d. snd (route_post_ticket v env now body s) =
      s\<lparr>rows := rows s @ [fst (prisma_create body d now s)], nextId := nextId s + 1\<rparr>)"
  by (cases "newDate env (b_tripDate body)")
    (auto simp: route_post_ticket_def post_ticket_eq, simp add: post_ticket_def)

lemma store_ok_fresh: "store_ok s \<Longrightarrow> nextId s \<notin> ids s"
  by (auto simp: store_ok_def ids_def list_all_iff)

lemma store_ok_create:
  assumes "store_ok s"
  shows "store_ok (s\<lparr>rows := rows s @ [fst (prisma_create body d now s)], nextId := nextId s + 1\<rparr>)"
proof -
  have "nextId s \<notin> t_id ` set (rows s)" using store_ok_fresh[OF assms] by (simp add: ids_def)
  then show ?thesis
    using assms by (auto simp: store_ok_def created_row list_all_iff)
qed

lemma ids_create:
  "ids (s\<lparr>rows := rows s @ [fst (prisma_create body d now s)], nextId := nextId s + 1\<rparr>)
     = insert (nextId s) (ids s)"
  by (auto simp: ids_def created_row)

lemma store_ok_initial: "store_ok \<lparr>rows = [], nextId = 1\<rparr>"
  by (simp add: store_ok_def)

lemma handle_keeps_absent:
  assumes "store_ok s" "n < nextId s" "n \<notin> ids s"
  shows "store_ok (handle v env r s) \<and> n < nextId (handle v env r s) \<and> n \<notin> ids (handle v env r s)"
proof (cases r)
  case (Create body now)
  from post_store_cases[of v env now body s] show ?thesis
  proof
    assume "snd (route_post_ticket v env now body s) = s"
    then show ?thesis using assms by (simp add: Create)
  next
    assume "\<exists>d. snd (route_post_ticket v env now body s) =
      s\<lparr>rows := rows s @ [fst (prisma_create body d now s)], nextId := nextId s + 1\<rparr>"
    then obtain d where "snd (route_post_ticket v env now body s) =
      s\<lparr>rows := rows s @ [fst (prisma_create body d now s)], nextId := nextId s + 1\<rparr>" ..
    then show ?thesis
      using assms store_ok_create[OF assms(1), of body d now]
      by (simp add: Create ids_create)
  qed
next
  case (Delete id_param)
  from delete_store_cases[of env id_param s] show ?thesis
  proof
    assume "snd (delete_ticket env id_param s) = s"
    then show ?thesis using assms by (simp add: Delete)
  next
    assume "\<exists>m. snd (delete_ticket env id_param s) = prisma_delete m s"
    then obtain m where "snd (delete_ticket env id_param s) = prisma_delete m s" ..
    then show ?thesis
      using assms store_ok_delete[OF assms(1), of m]
      by (simp add: Delete ids_delete nextId_delete)
  qed
qed

lemma handle_all_keeps_absent:
  "store_ok s \<Longrightarrow> n < nextId s \<Longrightarrow> n \<notin> ids s \<Longrightarrow>
   store_ok (handle_all v env rs s) \<and> n \<notin> ids (handle_all v env rs s)"
proof (induction rs arbitrary: s)
  case Nil
  then show ?case by simp
next
  case (Cons r rs)
  from handle_keeps_absent[OF Cons.prems, of v env r]
  show ?case using Cons.IH[of "handle v env r s"] by simp
qed

lemma store_ok_handle_all: "store_ok s \<Longrightarrow> store_ok (handle_all v env rs s)"
proof (induction rs arbitrary: s)
  case Nil
  then show ?case by simp
next
  case (Cons r rs)
  have "store_ok (handle v env r s)"
  proof (cases r)
    case (Create body now)
    from post_store_cases[of v env now body s] show ?thesis
      using Cons.prems store_ok_create[OF Cons.prems] by (auto simp: Create)
  next
    case (Delete id_param)
    from delete_store_cases[of env id_param s] show ?thesis
      using Cons.prems store_ok_delete[OF Cons.prems] by (auto simp: Delete)
  qed
  then show ?case using Cons.IH by simp
qed

lemma shown_ids_of_objects:
  "set (List.map_filter (\<lambda>obj. map_of obj ''id'') (map (ticket_object env) ts))
     = (\<lambda>t. JNum (t_id t)) ` set ts"
  by (induction ts) (auto simp: List.map_filter_simps ticket_object_def)

lemma findMany_rows: "set (prisma_findMany w skip l s) \<subseteq> set (rows s)"
proof -
  have "set (prisma_findMany w skip l s) \<subseteq> set (prisma_findMany_all w s)"
  proof (cases "0 \<le> l")
    case True
    then show ?thesis
      unfolding prisma_findMany_def
      by simp (meson set_take_subset set_drop_subset subset_trans)
  next
    case False
    have "set (take (nat (- l)) (drop (nat skip) (rev (prisma_findMany_all w s))))
            \<subseteq> set (rev (prisma_findMany_all w s))"
      by (meson set_take_subset set_drop_subset subset_trans)
    then show ?thesis using False by (simp add: prisma_findMany_def)
  qed
  then show ?thesis by (auto simp: findMany_all_set)
qed

lemma route_list_shown:
  assumes "route_get_tickets env q s = Inr r"
  shows "shown_ids r \<subseteq> JNum ` ids s"
proof -
  obtain p l where
    "r_tickets r = map (ticket_object env) (prisma_findMany (build_where env q) ((p - 1) * l) l s)"
    using route_list_Inr[OF assms] by auto
  then have "shown_ids r =
      (\<lambda>t. JNum (t_id t)) ` set (prisma_findMany (build_where env q) ((p - 1) * l) l s)"
    by (simp add: shown_ids_def shown_ids_of_objects)
  then show ?thesis using findMany_rows[of "build_where env q" "(p - 1) * l" l s]
    by (auto simp: ids_def)
qed

lemma delete_one_row:
  assumes "distinct (map t_id ts)" "n \<in> t_id ` set ts"
  shows "Suc (length (filter (\<lambda>t. t_id t \<noteq> n) ts)) = length ts"
proof -
  have keep: "\<forall>x\<in>set xs. m \<noteq> t_id x \<Longrightarrow> filter (\<lambda>t. t_id t \<noteq> m) xs = xs" for xs m
    by (induction xs) auto
  show ?thesis
    using assms by (induction ts) (auto simp: image_iff keep)
qed

text \<open>
  C6: a Delete that names an existing identifier (its path parameter parses to a safe
  integer that the identifier column takes and that a record carries) answers with
  status 200 and removes the record, exactly that one; after it, and after whatever
  creations and deletions follow, no List response shows the identifier, and a repeated
  Delete of it gets the error of status 404 and changes nothing. (The store satisfies the
  invariant of the identifier sequence, which every request preserves.)
\<close>

theorem C6_delete_removes_for_good:
  assumes "store_ok s" and "parseInt id_param = Finite n" and "safe_integer n"
    and "idColumn env n" and "n \<in> ids s"
  shows "fst (delete_ticket env id_param s) =
           Inr \<lparr>d_status = 200, d_message = ''Ticket deleted successfully''\<rparr> \<and>
         rows (snd (delete_ticket env id_param s)) = filter (\<lambda>t. t_id t \<noteq> n) (rows s) \<and>
         Suc (length (rows (snd (delete_ticket env id_param s)))) = length (rows s) \<and>
         (\<forall>rs q r. route_get_tickets env q
                      (handle_all v env rs (snd (delete_ticket env id_param s))) = Inr r
            \<longrightarrow> JNum n \<notin> shown_ids r) \<and>
         (\<forall>rs. delete_ticket env id_param
                  (handle_all v env rs (snd (delete_ticket env id_param s))) =
            (Inl (createError ''Ticket not found'' 404),
             handle_all v env rs (snd (delete_ticket env id_param s))))"
proof -
  note eq = delete_ticket_Finite[OF assms(2,3,4)]
  obtain t where t: "prisma_findUnique n s = Some t"
    using assms(5) findUnique_None_iff[of n s] by (cases "prisma_findUnique n s") auto
  have del: "delete_ticket env id_param s =
      (Inr \<lparr>d_status = 200, d_message = ''Ticket deleted successfully''\<rparr>, prisma_delete n s)"
    by (simp add: eq t)
  have ok: "store_ok (prisma_delete n s)" using assms(1) by (rule store_ok_delete)
  have lt: "n < nextId (prisma_delete n s)"
    using assms(1,5) by (auto simp: store_ok_def ids_def list_all_iff nextId_delete)
  have absent: "n \<notin> ids (prisma_delete n s)" by (simp add: ids_delete)
  note later = handle_all_keeps_absent[OF ok lt absent, of v env]
  have a: "Suc (length (rows (prisma_delete n s))) = length (rows s)"
    using assms(1,5) delete_one_row[of "rows s" n]
    by (simp add: store_ok_def ids_def prisma_delete_def)
  have b: "\<forall>rs q r. route_get_tickets env q (handle_all v env rs (prisma_delete n s)) = Inr r
            \<longrightarrow> JNum n \<notin> shown_ids r"
    using later route_list_shown by blast
  have c: "\<forall>rs. delete_ticket env id_param (handle_all v env rs (prisma_delete n s)) =
            (Inl (createError ''Ticket not found'' 404), handle_all v env rs (prisma_delete n s))"
  proof
    fix rs
    have "prisma_findUnique n (handle_all v env rs (prisma_delete n s)) = None"
      using later[of rs] by (simp add: findUnique_None_iff)
    then show "delete_ticket env id_param (handle_all v env rs (prisma_delete n s)) =
            (Inl (createError ''Ticket not found'' 404), handle_all v env rs (prisma_delete n s))"
      by (simp add: eq)
  qed
  show ?thesis using a b c by (simp add: del prisma_delete_def)
qed

text \<open>
  Deleting the record 10 from a store that holds the records 10 and 11.
\<close>

theorem C6_witness:
  "store_ok two_ticket_store \<and> parseInt ''10'' = Finite 10 \<and> safe_integer 10 \<and>
   idColumn example_env 10 \<and> 10 \<in> ids two_ticket_store \<and>
   delete_ticket example_env ''10'' two_ticket_store =
     (Inr \<lparr>d_status = 200, d_message = ''Ticket deleted successfully''\<rparr>,
      \<lparr>rows = [example_ticket 11 1704110400000 1704200000001], nextId = 12\<rparr>) \<and>
   (\<exists>r. route_get_tickets example_env no_filter
          \<lparr>rows = [example_ticket 11 1704110400000 1704200000001], nextId = 12\<rparr> = Inr r \<and>
        JNum 10 \<notin> shown_ids r \<and> JNum 11 \<in> shown_ids r) \<and>
   delete_ticket example_env ''10''
     \<lparr>rows = [example_ticket 11 1704110400000 1704200000001], nextId = 12\<rparr> =
     (Inl (createError ''Ticket not found'' 404),
      \<lparr>rows = [example_ticket 11 1704110400000 1704200000001], nextId = 12\<rparr>)"
proof -
  let ?s' = "\<lparr>rows = [example_ticket 11 1704110400000 1704200000001], nextId = 12\<rparr>"
  have ok: "store_ok two_ticket_store"
    by (simp add: store_ok_def two_ticket_store_def example_ticket_def)
  have p: "parseInt ''10'' = Finite 10" by (simp add: parseInt_examples)
  have i: "10 \<in> ids two_ticket_store"
    by (simp add: ids_def two_ticket_store_def example_ticket_def)
  have d: "delete_ticket example_env ''10'' two_ticket_store =
     (Inr \<lparr>d_status = 200, d_message = ''Ticket deleted successfully''\<rparr>, ?s')"
    by (simp add: delete_ticket_Finite[OF p example_column(5,2)] prisma_findUnique_def
        prisma_delete_def two_ticket_store_def example_ticket_def)
  have w: "prisma_findMany_all (build_where example_env no_filter) ?s' =
      [example_ticket 11 1704110400000 1704200000001]"
    by (simp add: prisma_findMany_all_def orderBy_createdAt_desc_def build_where_def
        no_filter_def truthy_def matches_def)
  have c: "prisma_count (build_where example_env no_filter) ?s' = 1"
    by (simp add: findMany_all_length[symmetric] w)
  have sf: "safe_integer ((1 - 1) * 20)" "safe_integer 20" by (simp_all add: safe_integer_def)
  have l: "route_get_tickets example_env no_filter ?s' =
     Inr \<lparr>r_page = 1, r_totalPages = 1, r_totalTickets = 1,
          r_tickets = [ticket_object example_env (example_ticket 11 1704110400000 1704200000001)]\<rparr>"
    by (simp add: route_list_accepted[OF no_filter_valid no_filter_numbers sf]
        prisma_findMany_def w c ceil_div_def)
  have s11: "JNum 11 \<in> shown_ids \<lparr>r_page = 1, r_totalPages = 1, r_totalTickets = 1,
          r_tickets = [ticket_object example_env (example_ticket 11 1704110400000 1704200000001)]\<rparr>"
    by (simp add: shown_ids_def List.map_filter_simps ticket_object_def example_ticket_def)
  note inst = C6_delete_removes_for_good[OF ok p example_column(5,2) i, of accept_all,
      unfolded d snd_conv fst_conv]
  have A: "\<forall>rs q r. route_get_tickets example_env q (handle_all accept_all example_env rs ?s') = Inr r
      \<longrightarrow> JNum 10 \<notin> shown_ids r"
    using inst by (elim conjE)
  have B: "\<forall>rs. delete_ticket example_env ''10'' (handle_all accept_all example_env rs ?s') =
      (Inl (createError ''Ticket not found'' 404), handle_all accept_all example_env rs ?s')"
    using inst by (elim conjE)
  have "JNum 10 \<notin> shown_ids \<lparr>r_page = 1, r_totalPages = 1, r_totalTickets = 1,
          r_tickets = [ticket_object example_env (example_ticket 11 1704110400000 1704200000001)]\<rparr>"
    using A[rule_format, where rs = "[]" and q = no_filter] l by simp
  moreover have "delete_ticket example_env ''10'' ?s' =
      (Inl (createError ''Ticket not found'' 404), ?s')"
    using B[rule_format, where rs = "[]"] by simp
  ultimately have "JNum 10 \<notin> shown_ids \<lparr>r_page = 1, r_totalPages = 1, r_totalTickets = 1,
          r_tickets = [ticket_object example_env (example_ticket 11 1704110400000 1704200000001)]\<rparr>
     \<and> delete_ticket example_env ''10'' ?s' = (Inl (createError ''Ticket not found'' 404), ?s')"
    by (rule conjI)
  then show ?thesis using ok p i d l s11 by (simp add: example_column)
qed

subsection \<open>Create\<close>





end
